theory Spec2Isabelle
  imports Main "HOL-Library.AList" "HOL-Library.Word"
begin

section \<open>Data model of the transaction executor\<close>

text \<open>
  The executor (package \<open>database\<close>, type \<open>Transaction\<close>) works on types that the
  packages \<open>ovsdb\<close>, \<open>model\<close>, \<open>cache\<close> and \<open>updates\<close> declare. What the executor never looks
  into stays a type parameter:
  \<^item> \<open>'v\<close>: a Go \<open>interface{}\<close> value (a column value),
  \<^item> \<open>'m\<close>: a \<open>model.Model\<close> (a typed row),
  \<^item> \<open>'u\<close>: an \<open>updates.ModelUpdates\<close> (the row update accumulator),
  \<^item> \<open>'c\<close>: a \<open>cache.TableCache\<close> (the scratch cache of the transaction).
  A Go map from UUID to row is an association list with distinct keys, in the order in
  which a \<open>range\<close> loop visits it; a map that a collaborator returns is a fresh one, which
  the executor may change without changing the collaborator.
\<close>

type_synonym uuid = string

text \<open>
  Modelled from the spec: the types \<open>ovsdb.Row\<close>, \<open>ovsdb.Condition\<close> and \<open>ovsdb.Mutation\<close>,
  declared outside the executor's file. A row maps column names to values; a condition is
  a (column, function, value) triple; a mutation is a (column, operator, argument) triple.
\<close>

type_synonym 'v Row = "(string \<times> 'v) list"

type_synonym 'v Condition = "string \<times> string \<times> 'v"

type_synonym 'v Mutation = "string \<times> string \<times> 'v"

text \<open>
  Modelled from the spec: the type \<open>ovsdb.Operation\<close>, with the fields the spec lists for
  an operation request (op, table, row, rows, columns, mutations, timeout, where, until,
  durable, comment, lock, named-uuid), typed as the executor uses them: \<open>Timeout\<close>,
  \<open>Durable\<close>, \<open>Comment\<close> and \<open>Lock\<close> are pointers, nil (\<open>None\<close>) when the field is absent.
\<close>

record 'v Operation =
  Op :: string
  Table :: string
  Row :: "'v Row"
  Rows :: "'v Row list"
  Columns :: "string list"
  Mutations :: "'v Mutation list"
  Timeout :: "int option"
  Where :: "'v Condition list"
  Until :: string
  Durable :: "bool option"
  Comment :: "string option"
  Lock :: "string option"
  UUIDName :: string

text \<open>
  Modelled from the spec: the type \<open>ovsdb.OperationResult\<close>: a count, an error with its
  details, a UUID and rows. Its field \<open>Rows\<close> is \<open>Rows_result\<close> here.
\<close>

record 'v OperationResult =
  Count :: int
  Error :: string
  Details :: string
  UUID :: string
  Rows_result :: "'v Row list"

text \<open>
  Modelled from the spec: Go errors, whose types are declared outside the executor's
  file. The executor tells \<open>*cache.ErrIndexExists\<close> (table, index, existing UUIDs) from
  every other error and reads its \<open>Existing\<close> field; it builds \<open>NotSupported\<close>, \<open>TimedOut\<close>, a
  constraint violation and \<open>fmt.Errorf\<close> wrappers itself. \<open>Errorf\<close> keeps the format string
  and the wrapped error, not the rendering of the other arguments.
\<close>

datatype error =
    ErrIndexExists string string "uuid list"
  | NotSupported
  | TimedOut
  | ConstraintViolation string
  | Errorf string error
  | OtherError string

text \<open>
  The struct \<open>Transaction\<close>: its mutable fields \<open>Cache\<close> and \<open>DeletedRows\<close>, and \<open>DbName\<close>. The
  fields \<open>Model\<close> and \<open>Database\<close> never change and are part of the collaborators below;
  \<open>ID\<close> is never read.
\<close>

record 'c Transaction =
  Cache :: 'c
  DeletedRows :: "uuid set"
  DbName :: string

text \<open>
  The collaborators of the executor, whose code lies outside the executor's file: the
  \<open>Database\<close> interface, the methods of the scratch cache, of the update accumulator and of
  the database model, and the helpers of package \<open>ovsdb\<close>. Each is a parameter, named
  after the Go receiver and method. A method that mutates its receiver returns the new
  receiver; a method that may fail returns the error beside it. \<open>Table(table)\<close> of the
  cache is folded into the table argument of each cache method. A \<open>ModelInfo\<close> is a view
  on its model, so the model stands for it: \<open>Model_NewModelInfo\<close> only says whether the
  view can be built, and \<open>Info_FieldByColumn\<close> and \<open>Mapper_NewRow\<close> read the model.
  \<open>ModelUpdates_empty\<close> is the literal \<open>updates.ModelUpdates{}\<close>. \<open>uuid_NewString\<close> numbers the calls of \<open>uuid.NewString()\<close>; \<open>time_Since\<close> is the
  duration in nanoseconds that the \<open>k\<close>-th poll of \<open>Wait\<close> reads from the clock.
\<close>

record ('v, 'm, 'u, 'c) env =
  Database_Exists :: "string \<Rightarrow> bool"
  Database_List :: "string \<Rightarrow> string \<Rightarrow> 'v Condition list \<Rightarrow> error + (uuid \<times> 'm) list"
  Database_CheckIndexes :: "string \<Rightarrow> string \<Rightarrow> 'm \<Rightarrow> error option"
  Cache_Tables :: "'c \<Rightarrow> string list"
  Cache_RowsByCondition :: "'c \<Rightarrow> string \<Rightarrow> 'v Condition list \<Rightarrow> error + (uuid \<times> 'm) list"
  Cache_RowsShallow :: "'c \<Rightarrow> string \<Rightarrow> (uuid \<times> 'm) list"
  Cache_Create :: "'c \<Rightarrow> string \<Rightarrow> uuid \<Rightarrow> 'm \<Rightarrow> bool \<Rightarrow> 'c \<times> error option"
  Cache_IndexExists :: "'c \<Rightarrow> string \<Rightarrow> 'm \<Rightarrow> error option"
  Cache_HasRow :: "'c \<Rightarrow> string \<Rightarrow> uuid \<Rightarrow> bool"
  Cache_ApplyCacheUpdate :: "'c \<Rightarrow> 'u \<Rightarrow> 'c \<times> error option"
  ModelUpdates_empty :: "'u"
  ModelUpdates_AddOperation ::
    "'u \<Rightarrow> string \<Rightarrow> uuid \<Rightarrow> 'm option \<Rightarrow> 'v Operation \<Rightarrow> error + 'u"
  ModelUpdates_Merge :: "'u \<Rightarrow> 'u \<Rightarrow> 'u \<times> error option"
  Model_NewModelInfo :: "'m \<Rightarrow> error option"
  Model_NewModel :: "string \<Rightarrow> error + 'm"
  Schema_Table :: "string \<Rightarrow> bool"
  Mapper_NewRow :: "'m \<Rightarrow> error + 'v Row"
  Mapper_GetRowData :: "'v Row \<Rightarrow> 'm \<Rightarrow> error + 'm"
  Info_FieldByColumn :: "'m \<Rightarrow> string \<Rightarrow> error + 'v"
  IsDefaultValue :: "'m \<Rightarrow> string \<Rightarrow> 'v \<Rightarrow> bool"
  ResultFromError :: "error \<Rightarrow> 'v OperationResult"
  newIndexExistsDetails :: "error \<Rightarrow> string"
  uuid_NewString :: "nat \<Rightarrow> string"
  time_Since :: "nat \<Rightarrow> int"

text \<open>
  Modelled from the spec: the constants \<open>ovsdb.OperationInsert\<close> to \<open>ovsdb.OperationAssert\<close>,
  declared outside the executor's file; their values are the operation names of the spec.
\<close>

definition OperationInsert :: string where "OperationInsert = ''insert''"
definition OperationSelect :: string where "OperationSelect = ''select''"
definition OperationUpdate :: string where "OperationUpdate = ''update''"
definition OperationMutate :: string where "OperationMutate = ''mutate''"
definition OperationDelete :: string where "OperationDelete = ''delete''"
definition OperationWait :: string where "OperationWait = ''wait''"
definition OperationCommit :: string where "OperationCommit = ''commit''"
definition OperationAbort :: string where "OperationAbort = ''abort''"
definition OperationComment :: string where "OperationComment = ''comment''"
definition OperationAssert :: string where "OperationAssert = ''assert''"

text \<open>The zero value of \<open>ovsdb.OperationResult\<close>.\<close>

definition zeroResult :: "'v OperationResult" where
  "zeroResult = \<lparr>Count = 0, Error = [], Details = [], UUID = [], Rows_result = []\<rparr>"

text \<open>
  What a call can do besides returning: panic (a nil pointer is dereferenced) or never
  return (\<open>Wait\<close> without a timeout polls forever).
\<close>

datatype 'a outcome = Returns 'a | Panics | Diverges

section \<open>Row resolution\<close>

text \<open>
  The first loop of \<open>rowsFromTransactionCacheAndDatabase\<close>: it visits the entries of the
  map \<open>rows\<close> that \<open>List\<close> returned, and changes \<open>rows\<close>, \<open>txnRows\<close> and the cache as it goes.
\<close>

fun preferTxnRows ::
  "('v, 'm, 'u, 'c) env \<Rightarrow> string \<Rightarrow> (uuid \<times> 'm) list \<Rightarrow> (uuid \<times> 'm) list \<Rightarrow>
   (uuid \<times> 'm) list \<Rightarrow> 'c \<Rightarrow> 'c \<times> (error + (uuid \<times> 'm) list \<times> (uuid \<times> 'm) list)"
where
  "preferTxnRows E table [] rows txnRows c = (c, Inr (rows, txnRows))"
| "preferTxnRows E table ((rowUUID, row) # rest) rows txnRows c =
     (case map_of txnRows rowUUID of
        Some txnRow \<Rightarrow>
          preferTxnRows E table rest (AList.update rowUUID txnRow rows)
            (AList.delete rowUUID txnRows) c
      | None \<Rightarrow>
          (case Cache_Create E c table rowUUID row False of
             (c', Some err) \<Rightarrow>
               (c', Inl (Errorf ''failed warming transaction cache row %s %v for table %s: %v'' err))
           | (c', None) \<Rightarrow> preferTxnRows E table rest rows txnRows c'))"

text \<open>
  \<open>rowsFromTransactionCacheAndDatabase\<close>. After the first loop, the second adds the rows
  left in \<open>txnRows\<close> to \<open>rows\<close>, and the third deletes every UUID of \<open>DeletedRows\<close> from
  \<open>rows\<close>. The cache that the warming has changed stays changed, also on an error.
\<close>

definition rowsFromTransactionCacheAndDatabase ::
  "('v, 'm, 'u, 'c) env \<Rightarrow> 'c Transaction \<Rightarrow> string \<Rightarrow> 'v Condition list \<Rightarrow>
   'c Transaction \<times> (error + (uuid \<times> 'm) list)"
where
  "rowsFromTransactionCacheAndDatabase E t table where =
     (case Cache_RowsByCondition E (Cache t) table where of
        Inl err \<Rightarrow>
          (t, Inl (Errorf ''failed getting rows for table %s from transaction cache: %v'' err))
      | Inr txnRows \<Rightarrow>
          (case Database_List E (DbName t) table where of
             Inl err \<Rightarrow>
               (t, Inl (Errorf ''failed getting rows for table %s from database: %v'' err))
           | Inr rows \<Rightarrow>
               (case preferTxnRows E table rows rows txnRows (Cache t) of
                  (c', Inl err) \<Rightarrow> (t\<lparr>Cache := c'\<rparr>, Inl err)
                | (c', Inr (rows', txnRows')) \<Rightarrow>
                    (t\<lparr>Cache := c'\<rparr>,
                     Inr (filter (\<lambda>(rowUUID, row). rowUUID \<notin> DeletedRows t)
                            (fold (\<lambda>(rowUUID, row). AList.update rowUUID row) txnRows' rows'))))))"

section \<open>Index validation\<close>

fun checkExisting ::
  "('v, 'm, 'u, 'c) env \<Rightarrow> 'c Transaction \<Rightarrow> string \<Rightarrow> error \<Rightarrow> uuid list \<Rightarrow> error option"
where
  "checkExisting E t table err [] = None"
| "checkExisting E t table err (existing # rest) =
     (if existing \<in> DeletedRows t then checkExisting E t table err rest
      else if Cache_HasRow E (Cache t) table existing then checkExisting E t table err rest
      else Some err)"

fun checkRows ::
  "('v, 'm, 'u, 'c) env \<Rightarrow> 'c Transaction \<Rightarrow> string \<Rightarrow> 'm list \<Rightarrow> error option"
where
  "checkRows E t table [] = None"
| "checkRows E t table (row # rest) =
     (case Cache_IndexExists E (Cache t) table row of
        Some err \<Rightarrow> Some err
      | None \<Rightarrow>
          (case Database_CheckIndexes E (DbName t) table row of
             None \<Rightarrow> checkRows E t table rest
           | Some (ErrIndexExists tb ix existing) \<Rightarrow>
               (case checkExisting E t table (ErrIndexExists tb ix existing) existing of
                  Some err \<Rightarrow> Some err
                | None \<Rightarrow> checkRows E t table rest)
           | Some err \<Rightarrow> Some err))"

fun checkTables ::
  "('v, 'm, 'u, 'c) env \<Rightarrow> 'c Transaction \<Rightarrow> string list \<Rightarrow> error option"
where
  "checkTables E t [] = None"
| "checkTables E t (table # rest) =
     (case checkRows E t table (map snd (Cache_RowsShallow E (Cache t) table)) of
        Some err \<Rightarrow> Some err
      | None \<Rightarrow> checkTables E t rest)"

definition checkIndexes :: "('v, 'm, 'u, 'c) env \<Rightarrow> 'c Transaction \<Rightarrow> error option" where
  "checkIndexes E t = checkTables E t (Cache_Tables E (Cache t))"

section \<open>The operations\<close>

definition Insert ::
  "('v, 'm, 'u, 'c) env \<Rightarrow> nat \<Rightarrow> 'v Operation \<Rightarrow> ('v OperationResult \<times> 'u option) \<times> nat"
where
  "Insert E n op =
     (let (rowUUID, n') =
            (if UUIDName op = [] then (uuid_NewString E n, Suc n) else (UUIDName op, n))
      in case ModelUpdates_AddOperation E (ModelUpdates_empty E) (Table op) rowUUID None op of
           Inl err \<Rightarrow> ((ResultFromError E err, None), n')
         | Inr update \<Rightarrow> ((zeroResult\<lparr>UUID := rowUUID\<rparr>, Some update), n'))"

text \<open>The loop of \<open>Select\<close> over the resolved rows.\<close>

fun selectRows ::
  "('v, 'm, 'u, 'c) env \<Rightarrow> 'm list \<Rightarrow> 'v Row list \<Rightarrow> error + 'v Row list"
where
  "selectRows E [] results = Inr results"
| "selectRows E (row # rest) results =
     (case Model_NewModelInfo E row of
        Some err \<Rightarrow> Inl err
      | None \<Rightarrow>
          (case Mapper_NewRow E row of
             Inl err \<Rightarrow> Inl err
           | Inr resultRow \<Rightarrow> selectRows E rest (results @ [resultRow])))"

definition Select ::
  "('v, 'm, 'u, 'c) env \<Rightarrow> 'c Transaction \<Rightarrow> string \<Rightarrow> 'v Condition list \<Rightarrow> string list \<Rightarrow>
   'v OperationResult \<times> 'c Transaction"
where
  "Select E t table where columns =
     (case rowsFromTransactionCacheAndDatabase E t table where of
        (t', Inl err) \<Rightarrow> (ResultFromError E err, t')
      | (t', Inr rows) \<Rightarrow>
          (case selectRows E (map snd rows) [] of
             Inl err \<Rightarrow> (ResultFromError E err, t')
           | Inr results \<Rightarrow> (zeroResult\<lparr>Rows_result := results\<rparr>, t')))"

text \<open>
  The loop of \<open>Update\<close>, \<open>Mutate\<close> and \<open>Delete\<close> over the resolved rows. \<open>Delete\<close> also
  records each UUID in \<open>DeletedRows\<close>, after its \<open>AddOperation\<close> has succeeded; the flag
  \<open>track\<close> says whether the caller is \<open>Delete\<close>.
\<close>

fun addOperations ::
  "('v, 'm, 'u, 'c) env \<Rightarrow> bool \<Rightarrow> 'v Operation \<Rightarrow> (uuid \<times> 'm) list \<Rightarrow> 'u \<Rightarrow> uuid set \<Rightarrow>
   (error + 'u) \<times> uuid set"
where
  "addOperations E track op [] update deleted = (Inr update, deleted)"
| "addOperations E track op ((uuid, old) # rest) update deleted =
     (case ModelUpdates_AddOperation E update (Table op) uuid (Some old) op of
        Inl err \<Rightarrow> (Inl err, deleted)
      | Inr update' \<Rightarrow>
          addOperations E track op rest update' (if track then insert uuid deleted else deleted))"

definition Update ::
  "('v, 'm, 'u, 'c) env \<Rightarrow> 'c Transaction \<Rightarrow> 'v Operation \<Rightarrow>
   ('v OperationResult \<times> 'u option) \<times> 'c Transaction"
where
  "Update E t op =
     (case rowsFromTransactionCacheAndDatabase E t (Table op) (Where op) of
        (t', Inl err) \<Rightarrow> ((ResultFromError E err, None), t')
      | (t', Inr rows) \<Rightarrow>
          (case addOperations E False op rows (ModelUpdates_empty E) (DeletedRows t') of
             (Inl err, deleted) \<Rightarrow> ((ResultFromError E err, None), t')
           | (Inr update, deleted) \<Rightarrow>
               ((zeroResult\<lparr>Count := int (length rows)\<rparr>, Some update), t')))"

definition Mutate ::
  "('v, 'm, 'u, 'c) env \<Rightarrow> 'c Transaction \<Rightarrow> 'v Operation \<Rightarrow>
   ('v OperationResult \<times> 'u option) \<times> 'c Transaction"
where
  "Mutate E t op =
     (case rowsFromTransactionCacheAndDatabase E t (Table op) (Where op) of
        (t', Inl err) \<Rightarrow> ((ResultFromError E err, None), t')
      | (t', Inr rows) \<Rightarrow>
          (case addOperations E False op rows (ModelUpdates_empty E) (DeletedRows t') of
             (Inl err, deleted) \<Rightarrow> ((ResultFromError E err, None), t')
           | (Inr update, deleted) \<Rightarrow>
               ((zeroResult\<lparr>Count := int (length rows)\<rparr>, Some update), t')))"

definition Delete ::
  "('v, 'm, 'u, 'c) env \<Rightarrow> 'c Transaction \<Rightarrow> 'v Operation \<Rightarrow>
   ('v OperationResult \<times> 'u option) \<times> 'c Transaction"
where
  "Delete E t op =
     (case rowsFromTransactionCacheAndDatabase E t (Table op) (Where op) of
        (t', Inl err) \<Rightarrow> ((ResultFromError E err, None), t')
      | (t', Inr rows) \<Rightarrow>
          (case addOperations E True op rows (ModelUpdates_empty E) (DeletedRows t') of
             (Inl err, deleted) \<Rightarrow>
               ((ResultFromError E err, None), t'\<lparr>DeletedRows := deleted\<rparr>)
           | (Inr update, deleted) \<Rightarrow>
               ((zeroResult\<lparr>Count := int (length rows)\<rparr>, Some update),
                t'\<lparr>DeletedRows := deleted\<rparr>)))"

definition Commit :: "('v, 'm, 'u, 'c) env \<Rightarrow> string \<Rightarrow> bool \<Rightarrow> 'v OperationResult" where
  "Commit E table durable = ResultFromError E NotSupported"

definition Abort :: "('v, 'm, 'u, 'c) env \<Rightarrow> string \<Rightarrow> 'v OperationResult" where
  "Abort E table = ResultFromError E NotSupported"

definition Comment_op :: "('v, 'm, 'u, 'c) env \<Rightarrow> string \<Rightarrow> string \<Rightarrow> 'v OperationResult" where
  "Comment_op E table comment = ResultFromError E NotSupported"

definition Assert :: "('v, 'm, 'u, 'c) env \<Rightarrow> string \<Rightarrow> string \<Rightarrow> 'v OperationResult" where
  "Assert E table lock = ResultFromError E NotSupported"

section \<open>Wait\<close>

text \<open>
  The three nested loops of one poll of \<open>Wait\<close>. The variable \<open>model\<close> is one object that
  \<open>GetRowData\<close> fills again for every expected row, so it is threaded through; \<open>info\<close> is
  the row found in the working set. \<open>reflect.DeepEqual\<close> is equality of values.
\<close>

fun waitRows ::
  "('v, 'm, 'u, 'c) env \<Rightarrow> 'm \<Rightarrow> string \<Rightarrow> 'v Row list \<Rightarrow> 'm \<Rightarrow> bool \<Rightarrow> error + 'm \<times> bool"
where
  "waitRows E info column [] model foundMatch = Inr (model, foundMatch)"
| "waitRows E info column (r # rest) model foundMatch =
     (case Model_NewModelInfo E model of
        Some err \<Rightarrow> Inl err
      | None \<Rightarrow>
          (case Mapper_GetRowData E r model of
             Inl err \<Rightarrow> Inl err
           | Inr model' \<Rightarrow>
               (case Info_FieldByColumn E model' column of
                  Inl err \<Rightarrow> Inl err
                | Inr x \<Rightarrow>
                    if IsDefaultValue E info column x
                    then waitRows E info column rest model' foundMatch
                    else (case Info_FieldByColumn E info column of
                            Inl err \<Rightarrow> Inl err
                          | Inr y \<Rightarrow>
                              waitRows E info column rest model'
                                (if x \<noteq> y then False else foundMatch)))))"

fun waitColumns ::
  "('v, 'm, 'u, 'c) env \<Rightarrow> 'm \<Rightarrow> string list \<Rightarrow> 'v Row list \<Rightarrow> 'm \<Rightarrow> bool \<Rightarrow> error + 'm \<times> bool"
where
  "waitColumns E info [] rows model foundMatch = Inr (model, foundMatch)"
| "waitColumns E info (column # rest) rows model foundMatch =
     (case waitRows E info column rows model foundMatch of
        Inl err \<Rightarrow> Inl err
      | Inr (model', foundMatch') \<Rightarrow> waitColumns E info rest rows model' foundMatch')"

fun waitFilter ::
  "('v, 'm, 'u, 'c) env \<Rightarrow> 'm list \<Rightarrow> string list \<Rightarrow> 'v Row list \<Rightarrow> 'm \<Rightarrow> 'v Row list \<Rightarrow>
   error + 'm \<times> 'v Row list"
where
  "waitFilter E [] columns rows model filteredRows = Inr (model, filteredRows)"
| "waitFilter E (rowModel # rest) columns rows model filteredRows =
     (case Model_NewModelInfo E rowModel of
        Some err \<Rightarrow> Inl err
      | None \<Rightarrow>
          (case waitColumns E rowModel columns rows model True of
             Inl err \<Rightarrow> Inl err
           | Inr (model', foundMatch) \<Rightarrow>
               if foundMatch
               then (case Mapper_NewRow E rowModel of
                       Inl err \<Rightarrow> Inl err
                     | Inr resultRow \<Rightarrow>
                         waitFilter E rest columns rows model' (filteredRows @ [resultRow]))
               else waitFilter E rest columns rows model' filteredRows))"

text \<open>
  \<open>time.Duration(*timeout) * time.Millisecond\<close>: a 64-bit product in nanoseconds, which
  wraps around.
\<close>

definition timeoutDuration :: "int \<Rightarrow> int" where
  "timeoutDuration ms = sint (word_of_int ms * 1000000 :: 64 word)"

text \<open>
  The polling loop of \<open>Wait\<close>, \<open>k\<close> polls after the first. It has no bound of its own:
  without a timeout it ends only when the rows match, so its result is an option, and
  \<open>None\<close> is a loop that never ends. The sleep between two polls shows only in what
  \<open>time_Since\<close> returns.
\<close>

partial_function (option) waitLoop ::
  "('v, 'm, 'u, 'c) env \<Rightarrow> string \<Rightarrow> int option \<Rightarrow> 'v Condition list \<Rightarrow> string list \<Rightarrow>
   string \<Rightarrow> 'v Row list \<Rightarrow> 'm \<Rightarrow> nat \<Rightarrow> 'c Transaction \<Rightarrow>
   ('v OperationResult \<times> 'c Transaction) option"
where
  "waitLoop E table timeout where columns until rows model k t =
     (case rowsFromTransactionCacheAndDatabase E t table where of
        (t', Inl err) \<Rightarrow> Some (ResultFromError E err, t')
      | (t', Inr foundRowModels) \<Rightarrow>
          (case waitFilter E (map snd foundRowModels) columns rows model [] of
             Inl err \<Rightarrow> Some (ResultFromError E err, t')
           | Inr (model', filteredRows) \<Rightarrow>
               if until = ''=='' \<and> length filteredRows = length rows
               then Some (zeroResult, t')
               else if until = ''!='' \<and> length filteredRows \<noteq> length rows
               then Some (zeroResult, t')
               else if (case timeout of
                          None \<Rightarrow> False
                        | Some ms \<Rightarrow> time_Since E k > timeoutDuration ms)
               then Some (ResultFromError E TimedOut, t')
               else waitLoop E table timeout where columns until rows model' (Suc k) t'))"

definition Wait ::
  "('v, 'm, 'u, 'c) env \<Rightarrow> 'c Transaction \<Rightarrow> string \<Rightarrow> int option \<Rightarrow> 'v Condition list \<Rightarrow>
   string list \<Rightarrow> string \<Rightarrow> 'v Row list \<Rightarrow> ('v OperationResult \<times> 'c Transaction) option"
where
  "Wait E t table timeout where columns until rows =
     (if until \<noteq> ''!='' \<and> until \<noteq> ''=='' then Some (ResultFromError E NotSupported, t)
      else if \<not> Schema_Table E table then Some (ResultFromError E NotSupported, t)
      else (case Model_NewModel E table of
              Inl err \<Rightarrow> Some (ResultFromError E err, t)
            | Inr model \<Rightarrow> waitLoop E table timeout where columns until rows model 0 t))"

section \<open>Transact\<close>

text \<open>
  The variables of the loop of \<open>Transact\<close>: the result vector (a nil pointer is \<open>None\<close>),
  the accumulated update, the variable \<open>r\<close> declared before the loop, the transaction,
  and the number of calls of \<open>uuid.NewString()\<close> so far.
\<close>

record ('v, 'u, 'c) vars =
  results :: "'v OperationResult option list"
  update :: 'u
  r :: "'v OperationResult"
  txn :: "'c Transaction"
  uuids :: nat

text \<open>
  The \<open>switch\<close> on \<open>op.Op\<close>: the result, the update of the operation (nil is \<open>None\<close>), the
  transaction and the count of fresh UUIDs after it. \<open>*durable\<close>, \<open>*op.Comment\<close> and
  \<open>*op.Lock\<close> dereference a pointer that is nil when the field is absent.
\<close>

definition dispatch ::
  "('v, 'm, 'u, 'c) env \<Rightarrow> 'c Transaction \<Rightarrow> nat \<Rightarrow> 'v Operation \<Rightarrow>
   (('v OperationResult \<times> 'u option) \<times> 'c Transaction \<times> nat) outcome"
where
  "dispatch E t n op =
     (if Op op = OperationInsert then
        (case Insert E n op of (ru, n') \<Rightarrow> Returns (ru, t, n'))
      else if Op op = OperationSelect then
        (case Select E t (Table op) (Where op) (Columns op) of
           (res, t') \<Rightarrow> Returns ((res, None), t', n))
      else if Op op = OperationUpdate then
        (case Update E t op of (ru, t') \<Rightarrow> Returns (ru, t', n))
      else if Op op = OperationMutate then
        (case Mutate E t op of (ru, t') \<Rightarrow> Returns (ru, t', n))
      else if Op op = OperationDelete then
        (case Delete E t op of (ru, t') \<Rightarrow> Returns (ru, t', n))
      else if Op op = OperationWait then
        (case Wait E t (Table op) (Timeout op) (Where op) (Columns op) (Until op) (Rows op) of
           None \<Rightarrow> Diverges
         | Some (res, t') \<Rightarrow> Returns ((res, None), t', n))
      else if Op op = OperationCommit then
        (case Durable op of
           None \<Rightarrow> Panics
         | Some durable \<Rightarrow> Returns ((Commit E (Table op) durable, None), t, n))
      else if Op op = OperationAbort then
        Returns ((Abort E (Table op), None), t, n)
      else if Op op = OperationComment then
        (case Comment op of
           None \<Rightarrow> Panics
         | Some comment \<Rightarrow> Returns ((Comment_op E (Table op) comment, None), t, n))
      else if Op op = OperationAssert then
        (case Lock op of
           None \<Rightarrow> Panics
         | Some lock \<Rightarrow> Returns ((Assert E (Table op) lock, None), t, n))
      else Returns ((ResultFromError E NotSupported, None), t, n))"

text \<open>
  What follows the \<open>switch\<close>: the update of a successful operation is merged into the
  accumulated update and applied to the cache; either step may replace the result by an
  error, and the second runs whether or not the first failed.
\<close>

definition mergeAndApply ::
  "('v, 'm, 'u, 'c) env \<Rightarrow> 'v OperationResult \<Rightarrow> 'u option \<Rightarrow> 'u \<Rightarrow> 'c \<Rightarrow>
   'v OperationResult \<times> 'u \<times> 'c"
where
  "mergeAndApply E res u upd c =
     (case u of
        None \<Rightarrow> (res, upd, c)
      | Some u' \<Rightarrow>
          if Error res = [] then
            (case ModelUpdates_Merge E upd u' of
               (upd', merr) \<Rightarrow>
                 (case Cache_ApplyCacheUpdate E c u' of
                    (c', aerr) \<Rightarrow>
                      ((case aerr of
                          Some err \<Rightarrow> ResultFromError E err
                        | None \<Rightarrow> (case merr of Some err \<Rightarrow> ResultFromError E err | None \<Rightarrow> res)),
                       upd', c')))
          else (res, upd, c))"

text \<open>
  One iteration of the loop of \<open>Transact\<close>. When the database does not exist the loop
  appends the address of \<open>r\<close> itself; \<open>r\<close> is never assigned again after that (its error is
  not empty), so the entry keeps the value it had when it was appended.
\<close>

definition transactStep ::
  "('v, 'm, 'u, 'c) env \<Rightarrow> 'v Operation \<Rightarrow> ('v, 'u, 'c) vars \<Rightarrow> ('v, 'u, 'c) vars outcome"
where
  "transactStep E op s =
     (if Error (r s) \<noteq> [] then Returns (s\<lparr>results := results s @ [None]\<rparr>)
      else if \<not> Database_Exists E (DbName (txn s)) then
        (let r' = zeroResult\<lparr>Error := ''database does not exist''\<rparr>
         in Returns (s\<lparr>results := results s @ [Some r'], r := r'\<rparr>))
      else
        (case dispatch E (txn s) (uuids s) op of
           Panics \<Rightarrow> Panics
         | Diverges \<Rightarrow> Diverges
         | Returns ((res, u), t', n') \<Rightarrow>
             (case mergeAndApply E res u (update s) (Cache t') of
                (res', upd', c') \<Rightarrow>
                  Returns \<lparr>results = results s @ [Some res'], update = upd', r = res',
                           txn = t'\<lparr>Cache := c'\<rparr>, uuids = n'\<rparr>)))"

fun transactLoop ::
  "('v, 'm, 'u, 'c) env \<Rightarrow> 'v Operation list \<Rightarrow> ('v, 'u, 'c) vars \<Rightarrow> ('v, 'u, 'c) vars outcome"
where
  "transactLoop E [] s = Returns s"
| "transactLoop E (op # ops) s =
     (case transactStep E op s of
        Returns s' \<Rightarrow> transactLoop E ops s'
      | Panics \<Rightarrow> Panics
      | Diverges \<Rightarrow> Diverges)"

text \<open>
  The entries that index validation appends to the result vector: none when
  \<open>checkIndexes\<close> finds no conflict, one otherwise.
\<close>

definition indexResults ::
  "('v, 'm, 'u, 'c) env \<Rightarrow> 'c Transaction \<Rightarrow> 'v OperationResult option list"
where
  "indexResults E t =
     (case checkIndexes E t of
        None \<Rightarrow> []
      | Some (ErrIndexExists tb ix existing) \<Rightarrow>
          [Some (ResultFromError E
             (ConstraintViolation (newIndexExistsDetails E (ErrIndexExists tb ix existing))))]
      | Some err \<Rightarrow> [Some (ResultFromError E err)])"

text \<open>
  \<open>Transact\<close> returns the result vector and the accumulated update; the transaction it
  leaves behind (its receiver) is returned with them.
\<close>

definition initVars :: "('v, 'm, 'u, 'c) env \<Rightarrow> 'c Transaction \<Rightarrow> ('v, 'u, 'c) vars" where
  "initVars E t =
     \<lparr>results = [], update = ModelUpdates_empty E, r = zeroResult, txn = t, uuids = 0\<rparr>"

definition Transact ::
  "('v, 'm, 'u, 'c) env \<Rightarrow> 'c Transaction \<Rightarrow> 'v Operation list \<Rightarrow>
   ('v OperationResult option list \<times> 'u \<times> 'c Transaction) outcome"
where
  "Transact E t operations =
     (case transactLoop E operations (initVars E t) of
        Panics \<Rightarrow> Panics
      | Diverges \<Rightarrow> Diverges
      | Returns s \<Rightarrow>
          if Error (r s) \<noteq> [] then Returns (results s, update s, txn s)
          else Returns (results s @ indexResults E (txn s), update s, txn s))"

section \<open>An in-memory database, cache and accumulator\<close>

text \<open>
  The theorems below hold for every collaborator. To run the executor on concrete
  batches, the collaborators are also given one concrete form: a database whose columns
  are strings, with one table \<open>Bridge\<close> indexed on \<open>name\<close>.
\<close>

type_synonym mrow = "(string \<times> string) list"

type_synonym mtables = "(string \<times> (uuid \<times> mrow) list) list"

type_synonym mupdates = "((string \<times> uuid) \<times> mrow option \<times> mrow option) list"

text \<open>
  Modelled from the spec: the schema model's \<open>Indexes(table)\<close>, which lists the indexes of
  a table as lists of column names. The schema declaration is not part of the executor's
  file; this one has the table \<open>Bridge\<close> with the index \<open>name\<close>.
\<close>

definition memIndexes :: "string \<Rightarrow> string list list" where
  "memIndexes table = (if table = ''Bridge'' then [[''name'']] else [])"

text \<open>
  Modelled from the spec: the condition evaluator (package \<open>ovsdb\<close>), for scalar string
  columns and the functions \<open>==\<close> and \<open>!=\<close>. A row satisfies a condition list iff it
  satisfies every condition.
\<close>

definition memMatches :: "string Condition list \<Rightarrow> mrow \<Rightarrow> bool" where
  "memMatches where row =
     list_all (\<lambda>(column, function, v).
        if function = ''=='' then map_of row column = Some v
        else function = ''!='' \<and> map_of row column \<noteq> Some v) where"

text \<open>
  Modelled from the spec: \<open>rowsByCondition(table, conds)\<close> of the scratch cache (package
  \<open>cache\<close>), a linear scan. A table the cache does not have, or a condition with another
  function than \<open>==\<close> and \<open>!=\<close>, is an error.
\<close>

definition memRowsByCondition ::
  "mtables \<Rightarrow> string \<Rightarrow> string Condition list \<Rightarrow> error + (uuid \<times> mrow) list"
where
  "memRowsByCondition c table where =
     (case map_of c table of
        None \<Rightarrow> Inl (OtherError ''no such table'')
      | Some rows \<Rightarrow>
          if list_all (\<lambda>(column, function, v). function = ''=='' \<or> function = ''!='') where
          then Inr (filter (\<lambda>(u, row). memMatches where row) rows)
          else Inl (OtherError ''condition not evaluated''))"

text \<open>
  Modelled from the spec: the per-table map from UUID to row of the scratch cache
  (\<open>RowsShallow\<close> of package \<open>cache\<close>).
\<close>

definition memRowsShallow :: "mtables \<Rightarrow> string \<Rightarrow> (uuid \<times> mrow) list" where
  "memRowsShallow c table = (case map_of c table of None \<Rightarrow> [] | Some rows \<Rightarrow> rows)"

text \<open>
  Modelled from the spec: the index check of the cache and of the database facade
  (\<open>IndexExists\<close> of package \<open>cache\<close>): the tuple of a row over the columns of an index must
  be unique; a collision is reported as \<open>index-exists(table, index, existing UUIDs)\<close>. A row
  does not collide with the row of its own UUID.
\<close>

definition memColliding :: "(uuid \<times> mrow) list \<Rightarrow> mrow \<Rightarrow> string list \<Rightarrow> uuid list" where
  "memColliding rows row index =
     map fst (filter (\<lambda>(u, other).
        map_of row ''_uuid'' \<noteq> Some u \<and> map (map_of other) index = map (map_of row) index) rows)"

text \<open>Modelled from the spec: the same check (package \<open>cache\<close>), over every index of a table.\<close>

fun memIndexCheck ::
  "(uuid \<times> mrow) list \<Rightarrow> string \<Rightarrow> mrow \<Rightarrow> string list list \<Rightarrow> error option"
where
  "memIndexCheck rows table row [] = None"
| "memIndexCheck rows table row (index # rest) =
     (if memColliding rows row index = [] then memIndexCheck rows table row rest
      else Some (ErrIndexExists table (concat index) (memColliding rows row index)))"

text \<open>Modelled from the spec: \<open>IndexExists\<close> of a table of the cache (package \<open>cache\<close>).\<close>

definition memIndexExists :: "mtables \<Rightarrow> string \<Rightarrow> mrow \<Rightarrow> error option" where
  "memIndexExists c table row = memIndexCheck (memRowsShallow c table) table row (memIndexes table)"

text \<open>
  Modelled from the spec: \<open>create(uuid, row, checkIndexes)\<close> of the scratch cache (package
  \<open>cache\<close>): it inserts the row, and on an index collision (when asked to check) returns
  \<open>index-exists\<close>.
\<close>

definition memCreate ::
  "mtables \<Rightarrow> string \<Rightarrow> uuid \<Rightarrow> mrow \<Rightarrow> bool \<Rightarrow> mtables \<times> error option"
where
  "memCreate c table u row check =
     (case (if check then memIndexExists c table row else None) of
        Some err \<Rightarrow> (c, Some err)
      | None \<Rightarrow> (AList.update table (AList.update u row (memRowsShallow c table)) c, None))"

text \<open>Modelled from the spec: \<open>get(table, uuid)\<close> of the scratch cache, as the test \<open>HasRow\<close>.\<close>

definition memHasRow :: "mtables \<Rightarrow> string \<Rightarrow> uuid \<Rightarrow> bool" where
  "memHasRow c table u = (map_of (memRowsShallow c table) u \<noteq> None)"

text \<open>
  Modelled from the spec: \<open>apply(update)\<close> of the scratch cache (\<open>ApplyCacheUpdate\<close> of
  package \<open>cache\<close>), which applies an accumulator diff in order: an entry without a new row
  deletes the row, any other entry stores the new row.
\<close>

fun memApply :: "mtables \<Rightarrow> mupdates \<Rightarrow> mtables \<times> error option" where
  "memApply c [] = (c, None)"
| "memApply c (((table, u), (old, new)) # rest) =
     (case new of
        None \<Rightarrow> memApply (AList.update table (AList.delete u (memRowsShallow c table)) c) rest
      | Some row \<Rightarrow>
          memApply (AList.update table (AList.update u row (memRowsShallow c table)) c) rest)"

text \<open>
  Modelled from the spec: the per-operation update (\<open>AddOperation\<close> of package \<open>updates\<close>).
  An insert emits an insert update of the given row under the row's UUID; an update
  replaces the listed columns; a delete emits a deletion update. No mutation applies to
  a string column, so a mutate is accepted only with an empty mutation list.
\<close>

definition memAddOperation ::
  "mupdates \<Rightarrow> string \<Rightarrow> uuid \<Rightarrow> mrow option \<Rightarrow> string Operation \<Rightarrow> error + mupdates"
where
  "memAddOperation upd table u current op =
     (case current of
        None \<Rightarrow>
          if Op op = ''insert''
          then Inr (AList.update (table, u) (None, Some ((''_uuid'', u) # Row op)) upd)
          else Inl (OtherError ''no current row'')
      | Some old \<Rightarrow>
          if Op op = ''update''
          then Inr (AList.update (table, u)
                 (Some old, Some (fold (\<lambda>(column, v). AList.update column v) (Row op) old)) upd)
          else if Op op = ''mutate'' \<and> Mutations op = []
          then Inr (AList.update (table, u) (Some old, Some old) upd)
          else if Op op = ''delete''
          then Inr (AList.update (table, u) (Some old, None) upd)
          else Inl (OtherError ''operation not applied''))"

text \<open>
  Modelled from the spec: the merge table of the row update accumulator (\<open>Merge\<close> of
  package \<open>updates\<close>), for one key. The first argument is the existing entry, the second
  the fresh one; a pair is (old, new), and a missing new row is the tombstone.
\<close>

fun memMergeOne ::
  "(mrow option \<times> mrow option) option \<Rightarrow> mrow option \<times> mrow option \<Rightarrow>
   error + (mrow option \<times> mrow option) option"
where
  "memMergeOne None new = Inr (Some new)"
| "memMergeOne (Some (None, Some x)) (None, Some y) = Inl (ConstraintViolation ''conflict'')"
| "memMergeOne (Some (None, Some x)) (Some old, Some y) = Inr (Some (None, Some y))"
| "memMergeOne (Some (None, Some x)) (old, None) = Inr None"
| "memMergeOne (Some (Some old, Some mid)) (None, Some y) = Inl (ConstraintViolation ''conflict'')"
| "memMergeOne (Some (Some old, Some mid)) (Some old', Some y) = Inr (Some (Some old, Some y))"
| "memMergeOne (Some (Some old, Some mid)) (old', None) = Inr (Some (Some old, None))"
| "memMergeOne (Some (Some old, None)) (None, Some y) = Inr (Some (Some old, Some y))"
| "memMergeOne (Some (Some old, None)) (Some old', Some y) = Inl (ConstraintViolation ''conflict'')"
| "memMergeOne (Some (Some old, None)) (old', None) = Inr (Some (Some old, None))"
| "memMergeOne (Some (None, None)) new = Inr (Some new)"

text \<open>
  Modelled from the spec: \<open>Merge\<close> of package \<open>updates\<close>, over every entry of the fresh
  update; a conflict is fatal.
\<close>

fun memMerge :: "mupdates \<Rightarrow> mupdates \<Rightarrow> mupdates \<times> error option" where
  "memMerge upd [] = (upd, None)"
| "memMerge upd ((key, new) # rest) =
     (case memMergeOne (map_of upd key) new of
        Inl err \<Rightarrow> (upd, Some err)
      | Inr None \<Rightarrow> memMerge (AList.delete key upd) rest
      | Inr (Some entry) \<Rightarrow> memMerge (AList.update key entry upd) rest)"

text \<open>
  Modelled from the spec: \<open>ResultFromError\<close> of package \<open>ovsdb\<close>, with the wire-visible
  error strings; an error of no wire-visible kind is surfaced as an internal error.
\<close>

definition memResultFromError :: "error \<Rightarrow> string OperationResult" where
  "memResultFromError err =
     (case err of
        NotSupported \<Rightarrow> zeroResult\<lparr>Error := ''not supported''\<rparr>
      | TimedOut \<Rightarrow> zeroResult\<lparr>Error := ''timed out''\<rparr>
      | ConstraintViolation details \<Rightarrow>
          zeroResult\<lparr>Error := ''constraint violation'', Details := details\<rparr>
      | _ \<Rightarrow> zeroResult\<lparr>Error := ''internal error''\<rparr>)"

text \<open>
  Modelled from the spec: \<open>list(db, table, conds)\<close> of the database facade (the
  \<open>Database\<close> interface), over a committed store that holds the one database
  \<open>Open_vSwitch\<close>.
\<close>

definition memList ::
  "mtables \<Rightarrow> string \<Rightarrow> string \<Rightarrow> string Condition list \<Rightarrow> error + (uuid \<times> mrow) list"
where
  "memList store db table where =
     (if db = ''Open_vSwitch'' then memRowsByCondition store table where
      else Inl (OtherError ''no such database''))"

text \<open>
  Modelled from the spec: the collaborators over a committed store. A model is its own
  wire row; the details string of an index collision is a fixed text; the clock advances
  by the 200 ms of one sleep per poll.
\<close>

definition memEnv :: "mtables \<Rightarrow> (string, mrow, mupdates, mtables) env" where
  "memEnv store =
     \<lparr>Database_Exists = (\<lambda>db. db = ''Open_vSwitch''),
      Database_List = memList store,
      Database_CheckIndexes = (\<lambda>db table row. memIndexExists store table row),
      Cache_Tables = map fst,
      Cache_RowsByCondition = memRowsByCondition,
      Cache_RowsShallow = memRowsShallow,
      Cache_Create = memCreate,
      Cache_IndexExists = memIndexExists,
      Cache_HasRow = memHasRow,
      Cache_ApplyCacheUpdate = memApply,
      ModelUpdates_empty = [],
      ModelUpdates_AddOperation = memAddOperation,
      ModelUpdates_Merge = memMerge,
      Model_NewModelInfo = (\<lambda>row. None),
      Model_NewModel = (\<lambda>table. Inr []),
      Schema_Table = (\<lambda>table. table = ''Bridge''),
      Mapper_NewRow = Inr,
      Mapper_GetRowData = (\<lambda>row model. Inr row),
      Info_FieldByColumn = (\<lambda>row column.
        case map_of row column of None \<Rightarrow> Inl (OtherError ''no such column'') | Some v \<Rightarrow> Inr v),
      IsDefaultValue = (\<lambda>row column v. v = []),
      ResultFromError = memResultFromError,
      newIndexExistsDetails = (\<lambda>err. ''identical values for index''),
      uuid_NewString = (\<lambda>n. ''fresh-'' @ replicate n CHR ''i''),
      time_Since = (\<lambda>k. 200000000 * int k)\<rparr>"

text \<open>
  A committed store with one bridge \<open>u1\<close> named \<open>foo\<close>, a second bridge \<open>u2\<close> of the same
  name to insert, a fresh transaction on the store, and the operations of the concrete
  runs.
\<close>

definition bridge1 :: mrow where
  "bridge1 = [(''_uuid'', ''u1''), (''name'', ''foo'')]"

definition bridge2 :: mrow where
  "bridge2 = [(''_uuid'', ''u2''), (''name'', ''foo'')]"

definition store1 :: mtables where
  "store1 = [(''Bridge'', [(''u1'', bridge1)])]"

definition txn0 :: "mtables Transaction" where
  "txn0 = \<lparr>Cache = [(''Bridge'', [])], DeletedRows = {}, DbName = ''Open_vSwitch''\<rparr>"

definition mkOp ::
  "string \<Rightarrow> string Condition list \<Rightarrow> string Row \<Rightarrow> string \<Rightarrow> bool option \<Rightarrow> string Operation"
where
  "mkOp name where row uuidName durable =
     \<lparr>Op = name, Table = ''Bridge'', Row = row, Rows = [], Columns = [], Mutations = [],
      Timeout = None, Where = where, Until = [], Durable = durable, Comment = None,
      Lock = None, UUIDName = uuidName\<rparr>"

definition opInsertFoo :: "string Operation" where
  "opInsertFoo = mkOp ''insert'' [] [(''name'', ''foo'')] ''u2'' None"

definition opDeleteU1 :: "string Operation" where
  "opDeleteU1 = mkOp ''delete'' [(''_uuid'', ''=='', ''u1'')] [] [] None"

definition opSelectU1 :: "string Operation" where
  "opSelectU1 = mkOp ''select'' [(''_uuid'', ''=='', ''u1'')] [] [] None"

definition opUpdateBar :: "string Operation" where
  "opUpdateBar = mkOp ''update'' [(''name'', ''=='', ''bar'')] [(''name'', ''baz'')] [] None"

definition opAbort :: "string Operation" where
  "opAbort = mkOp ''abort'' [] [] [] None"

definition opCommit :: "bool option \<Rightarrow> string Operation" where
  "opCommit durable = mkOp ''commit'' [] [] [] durable"

text \<open>
  A committed store with three bridges; a transaction on it that has renamed \<open>u1\<close>,
  inserted \<open>u3\<close> and deleted \<open>u4\<close>; and a transaction on the first store that has inserted a
  second bridge named \<open>foo\<close>, with a given deleted-rows set.
\<close>

definition txn3 :: "uuid set \<Rightarrow> mtables Transaction" where
  "txn3 deleted =
     \<lparr>Cache = [(''Bridge'', [(''u2'', bridge2)])], DeletedRows = deleted,
      DbName = ''Open_vSwitch''\<rparr>"

definition store2 :: mtables where
  "store2 =
     [(''Bridge'',
       [(''u1'', bridge1),
        (''u4'', [(''_uuid'', ''u4''), (''name'', ''baz'')]),
        (''u5'', [(''_uuid'', ''u5''), (''name'', ''qux'')])])]"

definition txn2 :: "mtables Transaction" where
  "txn2 =
     \<lparr>Cache = [(''Bridge'',
                 [(''u1'', [(''_uuid'', ''u1''), (''name'', ''bar'')]),
                  (''u3'', [(''_uuid'', ''u3''), (''name'', ''new'')])])],
      DeletedRows = {''u4''}, DbName = ''Open_vSwitch''\<rparr>"


text \<open>The rows, updates, results and loop variables that the concrete runs produce.\<close>

definition updInsertFoo :: mupdates where
  "updInsertFoo = [((''Bridge'', ''u2''), (None, Some bridge2))]"

definition updDeleteU1 :: mupdates where
  "updDeleteU1 = [((''Bridge'', ''u1''), (Some bridge1, None))]"

definition resInserted :: "string OperationResult" where
  "resInserted = zeroResult\<lparr>UUID := ''u2''\<rparr>"

definition resNotSupported :: "string OperationResult" where
  "resNotSupported = zeroResult\<lparr>Error := ''not supported''\<rparr>"

definition resIndexViolation :: "string OperationResult" where
  "resIndexViolation =
     zeroResult\<lparr>Error := ''constraint violation'', Details := ''identical values for index''\<rparr>"

definition resNoDatabase :: "string OperationResult" where
  "resNoDatabase = zeroResult\<lparr>Error := ''database does not exist''\<rparr>"

definition resCount :: "int \<Rightarrow> string OperationResult" where
  "resCount n = zeroResult\<lparr>Count := n\<rparr>"

definition varsInserted :: "(string, mupdates, mtables) vars" where
  "varsInserted =
     \<lparr>results = [Some resInserted], update = updInsertFoo, r = resInserted,
      txn = txn3 {}, uuids = 0\<rparr>"

definition varsAborted :: "(string, mupdates, mtables) vars" where
  "varsAborted =
     \<lparr>results = [Some resNotSupported], update = [], r = resNotSupported,
      txn = txn0, uuids = 0\<rparr>"

section \<open>Predicates of the theorems\<close>

text \<open>Some operation of the batch has produced a result with a non-empty error.\<close>

definition errorSeen :: "('v, 'u, 'c) vars \<Rightarrow> bool" where
  "errorSeen s =
     list_ex (\<lambda>x. case x of None \<Rightarrow> False | Some res \<Rightarrow> Error res \<noteq> []) (results s)"

text \<open>The operation makes the \<open>switch\<close> dereference a nil pointer.\<close>

definition derefsNil :: "'v Operation \<Rightarrow> bool" where
  "derefsNil op =
     (Op op = OperationCommit \<and> Durable op = None \<or>
      Op op = OperationComment \<and> Comment op = None \<or>
      Op op = OperationAssert \<and> Lock op = None)"

text \<open>
  Every colliding UUID is in the deleted set or in the scratch cache; and a row of the
  scratch cache passes index validation.
\<close>

definition tolerated ::
  "('v, 'm, 'u, 'c) env \<Rightarrow> 'c Transaction \<Rightarrow> string \<Rightarrow> uuid list \<Rightarrow> bool"
where
  "tolerated E t table existing =
     list_all (\<lambda>u. u \<in> DeletedRows t \<or> Cache_HasRow E (Cache t) table u) existing"

definition rowPasses :: "('v, 'm, 'u, 'c) env \<Rightarrow> 'c Transaction \<Rightarrow> string \<Rightarrow> 'm \<Rightarrow> bool" where
  "rowPasses E t table row =
     (Cache_IndexExists E (Cache t) table row = None \<and>
      (case Database_CheckIndexes E (DbName t) table row of
         None \<Rightarrow> True
       | Some (ErrIndexExists tb ix existing) \<Rightarrow> tolerated E t table existing
       | Some err \<Rightarrow> False))"

section \<open>The loop of Transact\<close>

lemmas Operation_names =
  OperationInsert_def OperationSelect_def OperationUpdate_def OperationMutate_def
  OperationDelete_def OperationWait_def OperationCommit_def OperationAbort_def
  OperationComment_def OperationAssert_def

lemma transactStep_aborted:
  "Error (r s) \<noteq> [] \<Longrightarrow> transactStep E op s = Returns (s\<lparr>results := results s @ [None]\<rparr>)"
  by (simp add: transactStep_def)

lemma transactLoop_aborted:
  "Error (r s) \<noteq> [] \<Longrightarrow>
   transactLoop E ops s = Returns (s\<lparr>results := results s @ replicate (length ops) None\<rparr>)"
proof (induction ops arbitrary: s)
  case Nil
  then show ?case by simp
next
  case (Cons op ops)
  have "transactLoop E (op # ops) s = transactLoop E ops (s\<lparr>results := results s @ [None]\<rparr>)"
    using Cons.prems by (simp add: transactStep_aborted)
  also have "\<dots> = Returns (s\<lparr>results := results s @ [None] @ replicate (length ops) None\<rparr>)"
    using Cons.prems by (subst Cons.IH) simp_all
  finally show ?case by (simp add: replicate_app_Cons_same)
qed

lemma transactLoop_append:
  "transactLoop E (xs @ ys) s =
     (case transactLoop E xs s of
        Returns s' \<Rightarrow> transactLoop E ys s'
      | Panics \<Rightarrow> Panics
      | Diverges \<Rightarrow> Diverges)"
  by (induction xs arbitrary: s) (auto split: outcome.splits)

lemma transactStep_results:
  assumes "transactStep E op s = Returns s'"
  shows "(Error (r s) \<noteq> [] \<and> s' = s\<lparr>results := results s @ [None]\<rparr>) \<or>
         (Error (r s) = [] \<and> results s' = results s @ [Some (r s')])"
  using assms
  by (auto simp: transactStep_def Let_def split: if_splits outcome.splits prod.splits)

lemma transactStep_length:
  "transactStep E op s = Returns s' \<Longrightarrow> length (results s') = Suc (length (results s))"
  by (drule transactStep_results) auto

lemma transactLoop_length:
  "transactLoop E ops s = Returns s' \<Longrightarrow> length (results s') = length (results s) + length ops"
proof (induction ops arbitrary: s)
  case Nil
  then show ?case by simp
next
  case (Cons op ops)
  then show ?case
    by (auto split: outcome.splits dest!: transactStep_length)
qed

lemma transactStep_errorSeen:
  assumes "transactStep E op s = Returns s'" and "errorSeen s = (Error (r s) \<noteq> [])"
  shows "errorSeen s' = (Error (r s') \<noteq> [])"
  using transactStep_results [OF assms(1)] assms(2)
  by (auto simp: errorSeen_def)

lemma transactLoop_errorSeen:
  "transactLoop E ops s = Returns s' \<Longrightarrow> errorSeen s = (Error (r s) \<noteq> []) \<Longrightarrow>
   errorSeen s' = (Error (r s') \<noteq> [])"
proof (induction ops arbitrary: s)
  case Nil
  then show ?case by simp
next
  case (Cons op ops)
  then show ?case
    by (auto split: outcome.splits dest: transactStep_errorSeen)
qed

lemma initVars_errorSeen: "errorSeen (initVars E t) = (Error (r (initVars E t)) \<noteq> [])"
  by (simp add: errorSeen_def initVars_def zeroResult_def)


lemma transactLoop_take_Suc:
  assumes "i < length ops"
  shows "transactLoop E (take (Suc i) ops) s =
           (case transactLoop E (take i ops) s of
              Returns s' \<Rightarrow> transactStep E (ops ! i) s'
            | Panics \<Rightarrow> Panics
            | Diverges \<Rightarrow> Diverges)"
proof -
  have "take (Suc i) ops = take i ops @ [ops ! i]"
    using assms by (simp add: take_Suc_conv_app_nth)
  then show ?thesis
    by (simp add: transactLoop_append split: outcome.splits)
qed

lemma indexResults_length: "length (indexResults E t) \<le> 1"
  by (simp add: indexResults_def split: option.splits error.splits)

lemma dispatch_Panics: "(dispatch E t n op = Panics) = derefsNil op"
  by (auto simp: dispatch_def derefsNil_def Operation_names split: prod.splits option.splits)

lemma dispatch_Diverges:
  "dispatch E t n op = Diverges \<Longrightarrow> Op op = OperationWait"
  by (auto simp: dispatch_def Operation_names split: prod.splits option.splits if_splits)

lemma transactStep_Panics:
  "(transactStep E op s = Panics) =
     (Error (r s) = [] \<and> Database_Exists E (DbName (txn s)) \<and> derefsNil op)"
  using dispatch_Panics [of E "txn s" "uuids s" op]
  by (auto simp: transactStep_def Let_def split: outcome.splits prod.splits)

lemma transactStep_Diverges:
  "transactStep E op s = Diverges \<Longrightarrow> Op op = OperationWait"
  by (auto simp: transactStep_def Let_def dest: dispatch_Diverges
      split: outcome.splits prod.splits if_splits)

lemma transactLoop_Returns:
  "\<forall>op\<in>set ops. Op op \<noteq> OperationWait \<and> \<not> derefsNil op \<Longrightarrow>
   \<exists>s'. transactLoop E ops s = Returns s'"
proof (induction ops arbitrary: s)
  case Nil
  then show ?case by simp
next
  case (Cons op ops)
  then obtain s1 where "transactStep E op s = Returns s1"
    by (cases "transactStep E op s") (auto simp: transactStep_Panics dest: transactStep_Diverges)
  with Cons show ?case by simp
qed

lemma rows_none:
  assumes "Cache_RowsByCondition E (Cache t) table where = Inr []"
    and "Database_List E (DbName t) table where = Inr []"
  shows "rowsFromTransactionCacheAndDatabase E t table where = (t, Inr [])"
  using assms by (simp add: rowsFromTransactionCacheAndDatabase_def)


section \<open>Row resolution and index validation\<close>

lemma preferTxnRows_maps:
  assumes "preferTxnRows E table es rows txnRows c = (c', Inr (rows', txnRows'))"
  shows "map_of rows' =
           (\<lambda>u. if u \<in> fst ` set es \<and> map_of txnRows u \<noteq> None then map_of txnRows u
                else map_of rows u) \<and>
         map_of txnRows' = map_of txnRows |` (- fst ` set es) \<and>
         (distinct (map fst txnRows) \<longrightarrow> distinct (map fst txnRows'))"
  using assms
proof (induction es arbitrary: rows txnRows c)
  case Nil
  then show ?case by simp
next
  case (Cons e es)
  obtain u row where e: "e = (u, row)" by (cases e)
  show ?case
  proof (cases "map_of txnRows u")
    case (Some txnRow)
    with Cons.prems e have
      "preferTxnRows E table es (AList.update u txnRow rows) (AList.delete u txnRows) c =
         (c', Inr (rows', txnRows'))"
      by simp
    from Cons.IH [OF this] Some e show ?thesis
      by (auto simp: update_conv' delete_conv' restrict_map_def distinct_delete
          fun_eq_iff)
  next
    case None
    with Cons.prems e obtain c1 where
      "preferTxnRows E table es rows txnRows c1 = (c', Inr (rows', txnRows'))"
      by (auto split: prod.splits option.splits)
    from Cons.IH [OF this] None e show ?thesis
      by (auto simp: restrict_map_def fun_eq_iff)
  qed
qed

lemma map_of_fold_update:
  "distinct (map fst ys) \<Longrightarrow>
   map_of (fold (\<lambda>(k, v). AList.update k v) ys xs) = map_of xs ++ map_of ys"
proof (induction ys arbitrary: xs)
  case Nil
  then show ?case by simp
next
  case (Cons y ys)
  obtain k v where y: "y = (k, v)" by (cases y)
  have "k \<notin> dom (map_of ys)"
    using Cons.prems y by (auto simp: dom_map_of_conv_image_fst)
  then have "map_of ys k = None" by blast
  then show ?case
    using Cons y by (auto simp: update_conv' fun_eq_iff map_add_def split: option.splits)
qed

lemma map_of_filter_deleted:
  "map_of (filter (\<lambda>(u, row). u \<notin> D) xs) = map_of xs |` (- D)"
  by (induction xs) (auto simp: restrict_map_def fun_eq_iff)

lemma preferTxnRows_total:
  assumes "\<forall>c u row. snd (Cache_Create E c table u row False) = None"
  shows "\<exists>c' rows' txnRows'.
           preferTxnRows E table es rows txnRows c = (c', Inr (rows', txnRows'))"
proof (induction es arbitrary: rows txnRows c)
  case Nil
  then show ?case by simp
next
  case (Cons e es)
  obtain u row where e: "e = (u, row)" by (cases e)
  show ?case
  proof (cases "map_of txnRows u")
    case (Some txnRow)
    then show ?thesis using Cons.IH e by simp
  next
    case None
    obtain c1 where "Cache_Create E c table u row False = (c1, None)"
      using assms by (metis prod.collapse)
    then show ?thesis using Cons.IH None e by simp
  qed
qed

lemma checkExisting_tolerated:
  "checkExisting E t table err existing =
     (if tolerated E t table existing then None else Some err)"
  by (induction existing) (auto simp: tolerated_def)

lemma checkRows_Cons_None:
  "(checkRows E t table (row # rest) = None) =
     (rowPasses E t table row \<and> checkRows E t table rest = None)"
  by (auto simp: rowPasses_def checkExisting_tolerated split: option.splits error.splits)

lemma checkRows_None:
  "(checkRows E t table rows = None) = list_all (rowPasses E t table) rows"
  by (induction rows) (simp_all add: checkRows_Cons_None del: checkRows.simps(2))

lemma checkTables_Cons_None:
  "(checkTables E t (table # rest) = None) =
     (checkRows E t table (map snd (Cache_RowsShallow E (Cache t) table)) = None \<and>
      checkTables E t rest = None)"
  by (simp split: option.splits)

lemma checkTables_None:
  "(checkTables E t tables = None) =
     list_all (\<lambda>table. list_all (rowPasses E t table)
       (map snd (Cache_RowsShallow E (Cache t) table))) tables"
  by (induction tables)
    (simp_all add: checkTables_Cons_None checkRows_None del: checkTables.simps(2))

lemma checkRows_Some:
  "checkRows E t table rows = Some err \<Longrightarrow>
   \<exists>row\<in>set rows.
     Cache_IndexExists E (Cache t) table row = Some err \<or>
     Database_CheckIndexes E (DbName t) table row = Some err \<and>
     (case err of ErrIndexExists tb ix existing \<Rightarrow> \<not> tolerated E t table existing | _ \<Rightarrow> True)"
  by (induction rows)
    (auto simp: checkExisting_tolerated split: option.splits error.splits if_splits)

lemma checkTables_Some:
  "checkTables E t tables = Some err \<Longrightarrow>
   \<exists>table\<in>set tables. checkRows E t table (map snd (Cache_RowsShallow E (Cache t) table)) = Some err"
  by (induction tables) (auto split: option.splits)

section \<open>The claims\<close>

subsection \<open>C1: deleted rows and the scratch cache\<close>

text \<open>
  Row resolution warms the cache with every row that \<open>List\<close> returns and the cache's own
  matching rows lack, before it excludes the deleted rows from its result: whether the
  UUID is in \<open>DeletedRows\<close> plays no part in what happens to the cache.
\<close>

lemma warming_ignores_DeletedRows:
  assumes "Cache_RowsByCondition E (Cache t) table where = Inr []"
    and "Database_List E (DbName t) table where = Inr [(u, row)]"
    and "Cache_Create E (Cache t) table u row False = (c', None)"
  shows "rowsFromTransactionCacheAndDatabase E t table where =
           (t\<lparr>Cache := c'\<rparr>, Inr (if u \<in> DeletedRows t then [] else [(u, row)]))"
  using assms by (simp add: rowsFromTransactionCacheAndDatabase_def)

text \<open>
  C1. The claim: a UUID in the deleted-rows set of a transaction is never in its scratch
  cache, after every operation, also after a non-insert operation that resolves rows
  from the committed store after an earlier delete. On the committed store with the
  bridge \<open>u1\<close>, deleting \<open>u1\<close> leaves the cache without it; a select of \<open>u1\<close> after the delete
  returns no row, yet leaves \<open>u1\<close> both in the deleted-rows set and in the scratch cache.
\<close>

theorem deleted_row_back_in_cache:
  "Transact (memEnv store1) txn0 [opDeleteU1] =
     Returns ([Some (resCount 1)], updDeleteU1,
              \<lparr>Cache = [(''Bridge'', [])], DeletedRows = {''u1''}, DbName = ''Open_vSwitch''\<rparr>) \<and>
   Transact (memEnv store1) txn0 [opDeleteU1, opSelectU1] =
     Returns ([Some (resCount 1), Some (resCount 0)], updDeleteU1,
              \<lparr>Cache = [(''Bridge'', [(''u1'', bridge1)])], DeletedRows = {''u1''},
                 DbName = ''Open_vSwitch''\<rparr>) \<and>
   Cache_HasRow (memEnv store1) [(''Bridge'', [(''u1'', bridge1)])] ''Bridge'' ''u1''"
  by code_simp

text \<open>
  What the row that came back costs: with the select between them, deleting \<open>u1\<close> and
  inserting another bridge of the same name ends in a constraint violation, because the
  new row collides in the scratch cache with the deleted one; without the select the
  same delete and insert pass index validation.
\<close>

lemma select_after_delete_breaks_insert:
  "Transact (memEnv store1) txn0 [opDeleteU1, opSelectU1, opInsertFoo] =
     Returns ([Some (resCount 1), Some (resCount 0), Some resInserted, Some resIndexViolation],
              updDeleteU1 @ updInsertFoo,
              \<lparr>Cache = [(''Bridge'', [(''u1'', bridge1), (''u2'', bridge2)])],
                 DeletedRows = {''u1''}, DbName = ''Open_vSwitch''\<rparr>) \<and>
   Transact (memEnv store1) txn0 [opDeleteU1, opInsertFoo] =
     Returns ([Some (resCount 1), Some resInserted], updDeleteU1 @ updInsertFoo,
              txn3 {''u1''})"
  by code_simp

subsection \<open>C2: index validation after a failed operation\<close>

text \<open>
  C2, as stated: when some operation of the batch produces a non-empty error, Transact
  still runs index validation after the last operation and appends its error. It does
  not: inserting a second bridge named \<open>foo\<close> and then aborting returns the two
  per-operation results and nothing more, although index validation of the transaction
  left behind reports the collision with \<open>u1\<close>.
\<close>

theorem index_validation_counterexample:
  "Transact (memEnv store1) txn0 [opInsertFoo, opAbort] =
     Returns ([Some resInserted, Some resNotSupported], updInsertFoo, txn3 {}) \<and>
   checkIndexes (memEnv store1) (txn3 {}) = Some (ErrIndexExists ''Bridge'' ''name'' [''u1'']) \<and>
   indexResults (memEnv store1) (txn3 {}) = [Some resIndexViolation]"
  by code_simp

text \<open>
  C2, amended: when some operation of the batch has produced a non-empty error, Transact
  skips index validation and returns exactly the per-operation results, one per
  operation; only when no operation has produced an error does it run index validation,
  which appends at most one trailing entry.
\<close>

theorem index_validation_gate:
  assumes "transactLoop E ops (initVars E t) = Returns s"
  shows "(errorSeen s \<longrightarrow>
            Transact E t ops = Returns (results s, update s, txn s) \<and>
            length (results s) = length ops) \<and>
         (\<not> errorSeen s \<longrightarrow>
            Transact E t ops = Returns (results s @ indexResults E (txn s), update s, txn s) \<and>
            length (indexResults E (txn s)) \<le> 1)"
proof -
  have "errorSeen s = (Error (r s) \<noteq> [])"
    using transactLoop_errorSeen [OF assms initVars_errorSeen] .
  moreover have "length (results s) = length ops"
    using transactLoop_length [OF assms] by (simp add: initVars_def)
  ultimately show ?thesis
    using assms indexResults_length [of E "txn s"] by (simp add: Transact_def)
qed


theorem index_validation_gate_witness:
  "errorSeen (varsInserted\<lparr>results := [Some resInserted, Some resNotSupported],
                           r := resNotSupported\<rparr>) \<and>
   Transact (memEnv store1) txn0 [opInsertFoo, opAbort] =
     Returns ([Some resInserted, Some resNotSupported], updInsertFoo, txn3 {}) \<and>
   \<not> errorSeen varsInserted \<and>
   Transact (memEnv store1) txn0 [opInsertFoo] =
     Returns ([Some resInserted, Some resIndexViolation], updInsertFoo, txn3 {})"
proof -
  let ?E = "memEnv store1"
  let ?s2 = "varsInserted\<lparr>results := [Some resInserted, Some resNotSupported],
                          r := resNotSupported\<rparr>"
  have l2: "transactLoop ?E [opInsertFoo, opAbort] (initVars ?E txn0) = Returns ?s2"
    by code_simp
  have e2: "errorSeen ?s2"
    by code_simp
  have l1: "transactLoop ?E [opInsertFoo] (initVars ?E txn0) = Returns varsInserted"
    by code_simp
  have e1: "\<not> errorSeen varsInserted"
    by code_simp
  have i1: "indexResults ?E (txn varsInserted) = [Some resIndexViolation]"
    by code_simp
  have "Transact ?E txn0 [opInsertFoo, opAbort] = Returns (results ?s2, update ?s2, txn ?s2)"
    using index_validation_gate [OF l2] e2 by blast
  moreover have "Transact ?E txn0 [opInsertFoo] =
      Returns (results varsInserted @ indexResults ?E (txn varsInserted),
               update varsInserted, txn varsInserted)"
    using index_validation_gate [OF l1] e1 by blast
  ultimately show ?thesis
    using e1 e2 i1 by (simp add: varsInserted_def)
qed

subsection \<open>C3: abort propagation\<close>

text \<open>
  C3. Once the operation at position \<open>i\<close> has produced a result with a non-empty error,
  every later slot of the result vector is a null placeholder and nothing is done for the
  later operations: the variables of the loop after the whole batch are those after
  operation \<open>i\<close> (the accumulated update, the transaction with its cache and deleted
  rows, the count of fresh UUIDs), with the null placeholders appended, and Transact
  returns them without index validation. The later operations are not dispatched, so
  none of them can panic or block.
\<close>

theorem abort_propagation:
  assumes "transactLoop E (take (Suc i) ops) (initVars E t) = Returns s"
    and "i < length ops"
    and "results s ! i = Some res"
    and "Error res \<noteq> []"
  shows "transactLoop E ops (initVars E t) =
           Returns (s\<lparr>results := results s @ replicate (length ops - Suc i) None\<rparr>) \<and>
         Transact E t ops =
           Returns (results s @ replicate (length ops - Suc i) None, update s, txn s) \<and>
         (\<forall>j. i < j \<and> j < length ops \<longrightarrow>
            (results s @ replicate (length ops - Suc i) None) ! j = None)"
proof -
  obtain s1 where s1: "transactLoop E (take i ops) (initVars E t) = Returns s1"
    and step: "transactStep E (ops ! i) s1 = Returns s"
    using assms(1) by (auto simp: transactLoop_take_Suc [OF assms(2)] split: outcome.splits)
  have len1: "length (results s1) = i"
    using transactLoop_length [OF s1] assms(2) by (simp add: initVars_def)
  have len: "length (results s) = Suc i"
    using transactStep_length [OF step] len1 by simp
  have "Error (r s) \<noteq> []"
    using transactStep_results [OF step] assms(3,4) len1 by (auto simp: nth_append)
  then have rest: "transactLoop E (drop (Suc i) ops) s =
      Returns (s\<lparr>results := results s @ replicate (length ops - Suc i) None\<rparr>)"
    by (simp add: transactLoop_aborted)
  have "transactLoop E (take (Suc i) ops @ drop (Suc i) ops) (initVars E t) =
      Returns (s\<lparr>results := results s @ replicate (length ops - Suc i) None\<rparr>)"
    unfolding transactLoop_append using assms(1) rest by simp
  then have loop: "transactLoop E ops (initVars E t) =
      Returns (s\<lparr>results := results s @ replicate (length ops - Suc i) None\<rparr>)"
    by simp
  have "\<forall>j. i < j \<and> j < length ops \<longrightarrow>
      (results s @ replicate (length ops - Suc i) None) ! j = None"
    using len by (auto simp: nth_append)
  with loop \<open>Error (r s) \<noteq> []\<close> show ?thesis
    by (simp add: Transact_def)
qed


theorem abort_propagation_witness:
  "transactLoop (memEnv store1) (take (Suc 0) [opAbort, opCommit None, opInsertFoo])
     (initVars (memEnv store1) txn0) = Returns varsAborted \<and>
   results varsAborted ! 0 = Some resNotSupported \<and>
   Error resNotSupported \<noteq> [] \<and>
   Transact (memEnv store1) txn0 [opAbort, opCommit None, opInsertFoo] =
     Returns ([Some resNotSupported, None, None], [], txn0)"
proof -
  let ?E = "memEnv store1"
  have h1: "transactLoop ?E (take (Suc 0) [opAbort, opCommit None, opInsertFoo])
      (initVars ?E txn0) = Returns varsAborted"
    by code_simp
  have h2: "0 < length [opAbort, opCommit None, opInsertFoo]"
    by simp
  have h3: "results varsAborted ! 0 = Some resNotSupported"
    by (simp add: varsAborted_def)
  have h4: "Error resNotSupported \<noteq> []"
    by (simp add: resNotSupported_def)
  have "Transact ?E txn0 [opAbort, opCommit None, opInsertFoo] =
      Returns (results varsAborted @
               replicate (length [opAbort, opCommit None, opInsertFoo] - Suc 0) None,
               update varsAborted, txn varsAborted)"
    using abort_propagation [OF h1 h2 h3 h4] by blast
  then show ?thesis
    using h1 h3 h4 by (simp add: varsAborted_def numeral_2_eq_2)
qed

subsection \<open>C4: operations that match no row\<close>

text \<open>
  C4. An update, mutate or delete whose \<open>where\<close> conditions match no row in the scratch
  cache and none in the committed store returns \<open>{count: 0}\<close> with no error, and its update
  is the empty \<open>ModelUpdates{}\<close>: \<open>AddOperation\<close> is never called on it. In the loop of
  Transact, where merging and applying an empty update change nothing, the operation
  appends this result and leaves the accumulated update, the cache and the deleted rows
  as they were.
\<close>

theorem no_rows_no_op:
  assumes "Cache_RowsByCondition E (Cache t) (Table op) (Where op) = Inr []"
    and "Database_List E (DbName t) (Table op) (Where op) = Inr []"
  shows "Update E t op = ((zeroResult\<lparr>Count := 0\<rparr>, Some (ModelUpdates_empty E)), t) \<and>
         Mutate E t op = ((zeroResult\<lparr>Count := 0\<rparr>, Some (ModelUpdates_empty E)), t) \<and>
         Delete E t op = ((zeroResult\<lparr>Count := 0\<rparr>, Some (ModelUpdates_empty E)), t) \<and>
         Error (zeroResult\<lparr>Count := 0\<rparr> :: 'a OperationResult) = [] \<and>
         (Op op \<in> {OperationUpdate, OperationMutate, OperationDelete} \<longrightarrow>
          Error (r s) = [] \<longrightarrow> Database_Exists E (DbName t) \<longrightarrow> txn s = t \<longrightarrow>
          ModelUpdates_Merge E (update s) (ModelUpdates_empty E) = (update s, None) \<longrightarrow>
          Cache_ApplyCacheUpdate E (Cache t) (ModelUpdates_empty E) = (Cache t, None) \<longrightarrow>
          transactStep E op s =
            Returns (s\<lparr>results := results s @ [Some (zeroResult\<lparr>Count := 0\<rparr>)],
                       r := zeroResult\<lparr>Count := 0\<rparr>\<rparr>))"
proof -
  note rows = rows_none [OF assms]
  have upd: "Update E t op = ((zeroResult\<lparr>Count := 0\<rparr>, Some (ModelUpdates_empty E)), t)"
    by (simp add: Update_def rows)
  have mut: "Mutate E t op = ((zeroResult\<lparr>Count := 0\<rparr>, Some (ModelUpdates_empty E)), t)"
    by (simp add: Mutate_def rows)
  have del: "Delete E t op = ((zeroResult\<lparr>Count := 0\<rparr>, Some (ModelUpdates_empty E)), t)"
    by (simp add: Delete_def rows)
  have noerr: "Error (zeroResult\<lparr>Count := 0\<rparr> :: 'a OperationResult) = []"
    by (simp add: zeroResult_def)
  have step: "transactStep E op s =
      Returns (s\<lparr>results := results s @ [Some (zeroResult\<lparr>Count := 0\<rparr>)],
                 r := zeroResult\<lparr>Count := 0\<rparr>\<rparr>)"
    if "Op op \<in> {OperationUpdate, OperationMutate, OperationDelete}"
      and "Error (r s) = []" and "Database_Exists E (DbName t)" and "txn s = t"
      and "ModelUpdates_Merge E (update s) (ModelUpdates_empty E) = (update s, None)"
      and "Cache_ApplyCacheUpdate E (Cache t) (ModelUpdates_empty E) = (Cache t, None)"
  proof -
    have "dispatch E t (uuids s) op =
        Returns ((zeroResult\<lparr>Count := 0\<rparr>, Some (ModelUpdates_empty E)), t, uuids s)"
      using that(1) by (auto simp: dispatch_def Operation_names upd mut del)
    then show ?thesis
      using that noerr by (simp add: transactStep_def mergeAndApply_def)
  qed
  from upd mut del noerr step show ?thesis by blast
qed

theorem no_rows_no_op_witness:
  "Cache_RowsByCondition (memEnv store1) (Cache txn0) (Table opUpdateBar) (Where opUpdateBar) =
     Inr [] \<and>
   Database_List (memEnv store1) (DbName txn0) (Table opUpdateBar) (Where opUpdateBar) = Inr [] \<and>
   Op opUpdateBar = OperationUpdate \<and>
   Update (memEnv store1) txn0 opUpdateBar =
     ((zeroResult\<lparr>Count := 0\<rparr>, Some (ModelUpdates_empty (memEnv store1))), txn0) \<and>
   transactStep (memEnv store1) opUpdateBar varsInserted =
     Returns (varsInserted\<lparr>results := results varsInserted @ [Some (zeroResult\<lparr>Count := 0\<rparr>)],
                           r := zeroResult\<lparr>Count := 0\<rparr>\<rparr>)"
proof -
  let ?E = "memEnv store1"
  have h1: "Cache_RowsByCondition ?E (Cache (txn3 {})) (Table opUpdateBar) (Where opUpdateBar) =
      Inr []"
    by code_simp
  have h2: "Database_List ?E (DbName (txn3 {})) (Table opUpdateBar) (Where opUpdateBar) = Inr []"
    by code_simp
  have g1: "Cache_RowsByCondition ?E (Cache txn0) (Table opUpdateBar) (Where opUpdateBar) = Inr []"
    by code_simp
  have g2: "Database_List ?E (DbName txn0) (Table opUpdateBar) (Where opUpdateBar) = Inr []"
    by code_simp
  have h3: "Op opUpdateBar \<in> {OperationUpdate, OperationMutate, OperationDelete}"
    by code_simp
  have g3: "Op opUpdateBar = OperationUpdate"
    by code_simp
  have h4: "Error (r varsInserted) = []"
    by code_simp
  have h5: "Database_Exists ?E (DbName (txn3 {}))"
    by code_simp
  have h6: "txn varsInserted = txn3 {}"
    by (simp add: varsInserted_def)
  have h7: "ModelUpdates_Merge ?E (update varsInserted) (ModelUpdates_empty ?E) =
      (update varsInserted, None)"
    by (simp add: memEnv_def)
  have h8: "Cache_ApplyCacheUpdate ?E (Cache (txn3 {})) (ModelUpdates_empty ?E) =
      (Cache (txn3 {}), None)"
    by (simp add: memEnv_def)
  have "Update ?E txn0 opUpdateBar =
      ((zeroResult\<lparr>Count := 0\<rparr>, Some (ModelUpdates_empty ?E)), txn0)"
    using no_rows_no_op [OF g1 g2] by blast
  moreover have "transactStep ?E opUpdateBar varsInserted =
      Returns (varsInserted\<lparr>results := results varsInserted @ [Some (zeroResult\<lparr>Count := 0\<rparr>)],
                            r := zeroResult\<lparr>Count := 0\<rparr>\<rparr>)"
    using no_rows_no_op [OF h1 h2, of varsInserted] h3 h4 h5 h6 h7 h8 by blast
  ultimately show ?thesis
    using g1 g2 g3 by blast
qed

subsection \<open>C5: the length of the result vector\<close>

text \<open>
  C5. For a batch of N operations, the result vector that Transact returns has N
  entries, or N + 1 with the trailing entry of index validation. Transact returns for
  every batch without a wait operation and without a commit, comment or assert whose
  \<open>durable\<close>, \<open>comment\<close> or \<open>lock\<close> is absent.
\<close>

theorem Transact_length:
  "(Transact E t ops = Returns (res, upd, t') \<longrightarrow>
      length res = length ops \<or> length res = length ops + 1) \<and>
   ((\<forall>op\<in>set ops. Op op \<noteq> OperationWait \<and> \<not> derefsNil op) \<longrightarrow>
      (\<exists>res upd t'. Transact E t ops = Returns (res, upd, t')))"
proof (intro conjI impI)
  assume ret: "Transact E t ops = Returns (res, upd, t')"
  then obtain s where s: "transactLoop E ops (initVars E t) = Returns s"
    by (auto simp: Transact_def split: outcome.splits)
  have len: "length (results s) = length ops"
    using transactLoop_length [OF s] by (simp add: initVars_def)
  have "length (indexResults E (txn s)) = 0 \<or> length (indexResults E (txn s)) = 1"
    using indexResults_length [of E "txn s"] by linarith
  with ret s len show "length res = length ops \<or> length res = length ops + 1"
    by (auto simp: Transact_def split: if_splits)
next
  assume "\<forall>op\<in>set ops. Op op \<noteq> OperationWait \<and> \<not> derefsNil op"
  then obtain s where "transactLoop E ops (initVars E t) = Returns s"
    using transactLoop_Returns by blast
  then show "\<exists>res upd t'. Transact E t ops = Returns (res, upd, t')"
    by (simp add: Transact_def)
qed

theorem Transact_length_witness:
  "Transact (memEnv store1) txn0 [opInsertFoo] =
     Returns ([Some resInserted, Some resIndexViolation], updInsertFoo, txn3 {}) \<and>
   Op opInsertFoo \<noteq> OperationWait \<and>
   \<not> derefsNil opInsertFoo \<and>
   length [Some resInserted, Some resIndexViolation] = length [opInsertFoo] + 1"
proof -
  let ?E = "memEnv store1"
  have h1: "Transact ?E txn0 [opInsertFoo] =
      Returns ([Some resInserted, Some resIndexViolation], updInsertFoo, txn3 {})"
    by code_simp
  have h2: "Op opInsertFoo \<noteq> OperationWait"
    by code_simp
  have h3: "\<not> derefsNil opInsertFoo"
    by code_simp
  have "\<exists>res upd t'. Transact ?E txn0 [opInsertFoo] = Returns (res, upd, t')"
    using Transact_length [of ?E txn0 "[opInsertFoo]"] h2 h3 by simp
  moreover have "length [Some resInserted, Some resIndexViolation] = length [opInsertFoo] \<or>
      length [Some resInserted, Some resIndexViolation] = length [opInsertFoo] + 1"
    using Transact_length [of ?E txn0 "[opInsertFoo]"] h1 by blast
  ultimately show ?thesis
    using h1 h2 h3 by simp
qed

subsection \<open>C6: the working row set\<close>

text \<open>
  C6. For a table and \<open>where\<close> conditions, with \<open>txnRows\<close> the rows of the scratch cache
  that match and \<open>dbRows\<close> the rows of the committed store that match, the working row
  set that row resolution returns is the union of both, the scratch row taking
  precedence on a UUID present in both, with every UUID of the deleted-rows set
  excluded. Row resolution returns a row set whenever warming the cache cannot fail.
\<close>

theorem row_resolution:
  assumes "Cache_RowsByCondition E (Cache t) table where = Inr txnRows"
    and "Database_List E (DbName t) table where = Inr dbRows"
    and "distinct (map fst txnRows)"
  shows "(rowsFromTransactionCacheAndDatabase E t table where = (t', Inr rows) \<longrightarrow>
            map_of rows = (map_of dbRows ++ map_of txnRows) |` (- DeletedRows t)) \<and>
         ((\<forall>c u row. snd (Cache_Create E c table u row False) = None) \<longrightarrow>
            (\<exists>t' rows. rowsFromTransactionCacheAndDatabase E t table where = (t', Inr rows)))"
proof (intro conjI impI)
  assume ret: "rowsFromTransactionCacheAndDatabase E t table where = (t', Inr rows)"
  then obtain c' rows' txnRows' where
    loop: "preferTxnRows E table dbRows dbRows txnRows (Cache t) = (c', Inr (rows', txnRows'))"
    and rows: "rows = filter (\<lambda>(u, row). u \<notin> DeletedRows t)
                 (fold (\<lambda>(u, row). AList.update u row) txnRows' rows')"
    using assms(1,2)
    by (auto simp: rowsFromTransactionCacheAndDatabase_def split: prod.splits sum.splits)
  from preferTxnRows_maps [OF loop] assms(3) have
    m1: "map_of rows' = (\<lambda>u. if u \<in> fst ` set dbRows \<and> map_of txnRows u \<noteq> None
                             then map_of txnRows u else map_of dbRows u)"
    and m2: "map_of txnRows' = map_of txnRows |` (- fst ` set dbRows)"
    and d: "distinct (map fst txnRows')"
    by simp_all
  have "map_of rows' ++ map_of txnRows' = map_of dbRows ++ map_of txnRows"
    unfolding m1 m2
    by (auto simp: fun_eq_iff map_add_def restrict_map_def split: option.splits)
  then show "map_of rows = (map_of dbRows ++ map_of txnRows) |` (- DeletedRows t)"
    unfolding rows by (simp add: map_of_filter_deleted map_of_fold_update [OF d])
next
  assume "\<forall>c u row. snd (Cache_Create E c table u row False) = None"
  from preferTxnRows_total [OF this] obtain c' rows' txnRows' where
    "preferTxnRows E table dbRows dbRows txnRows (Cache t) = (c', Inr (rows', txnRows'))"
    by blast
  then show "\<exists>t' rows. rowsFromTransactionCacheAndDatabase E t table where = (t', Inr rows)"
    using assms(1,2) by (simp add: rowsFromTransactionCacheAndDatabase_def)
qed


theorem row_resolution_witness:
  "Cache_RowsByCondition (memEnv store2) (Cache txn2) ''Bridge'' [] =
     Inr [(''u1'', [(''_uuid'', ''u1''), (''name'', ''bar'')]),
          (''u3'', [(''_uuid'', ''u3''), (''name'', ''new'')])] \<and>
   Database_List (memEnv store2) (DbName txn2) ''Bridge'' [] =
     Inr [(''u1'', bridge1), (''u4'', [(''_uuid'', ''u4''), (''name'', ''baz'')]),
          (''u5'', [(''_uuid'', ''u5''), (''name'', ''qux'')])] \<and>
   snd (rowsFromTransactionCacheAndDatabase (memEnv store2) txn2 ''Bridge'' []) =
     Inr [(''u1'', [(''_uuid'', ''u1''), (''name'', ''bar'')]),
          (''u5'', [(''_uuid'', ''u5''), (''name'', ''qux'')]),
          (''u3'', [(''_uuid'', ''u3''), (''name'', ''new'')])] \<and>
   map_of [(''u1'', [(''_uuid'', ''u1''), (''name'', ''bar'')]),
           (''u5'', [(''_uuid'', ''u5''), (''name'', ''qux'')]),
           (''u3'', [(''_uuid'', ''u3''), (''name'', ''new'')])] =
     (map_of [(''u1'', bridge1), (''u4'', [(''_uuid'', ''u4''), (''name'', ''baz'')]),
              (''u5'', [(''_uuid'', ''u5''), (''name'', ''qux'')])] ++
      map_of [(''u1'', [(''_uuid'', ''u1''), (''name'', ''bar'')]),
              (''u3'', [(''_uuid'', ''u3''), (''name'', ''new'')])]) |` (- DeletedRows txn2)"
proof -
  let ?E = "memEnv store2"
  let ?txnRows = "[(''u1'', [(''_uuid'', ''u1''), (''name'', ''bar'')]),
                   (''u3'', [(''_uuid'', ''u3''), (''name'', ''new'')])] :: (uuid \<times> mrow) list"
  let ?dbRows = "[(''u1'', bridge1), (''u4'', [(''_uuid'', ''u4''), (''name'', ''baz'')]),
                  (''u5'', [(''_uuid'', ''u5''), (''name'', ''qux'')])] :: (uuid \<times> mrow) list"
  let ?rows = "[(''u1'', [(''_uuid'', ''u1''), (''name'', ''bar'')]),
                (''u5'', [(''_uuid'', ''u5''), (''name'', ''qux'')]),
                (''u3'', [(''_uuid'', ''u3''), (''name'', ''new'')])] :: (uuid \<times> mrow) list"
  let ?t' = "fst (rowsFromTransactionCacheAndDatabase ?E txn2 ''Bridge'' [])"
  have h1: "Cache_RowsByCondition ?E (Cache txn2) ''Bridge'' [] = Inr ?txnRows"
    by code_simp
  have h2: "Database_List ?E (DbName txn2) ''Bridge'' [] = Inr ?dbRows"
    by code_simp
  have h3: "distinct (map fst ?txnRows)"
    by simp
  have h4: "snd (rowsFromTransactionCacheAndDatabase ?E txn2 ''Bridge'' []) = Inr ?rows"
    by code_simp
  then have h5: "rowsFromTransactionCacheAndDatabase ?E txn2 ''Bridge'' [] = (?t', Inr ?rows)"
    by (metis prod.collapse)
  have "map_of ?rows = (map_of ?dbRows ++ map_of ?txnRows) |` (- DeletedRows txn2)"
    using row_resolution [OF h1 h2 h3, of ?t' ?rows] h5 by blast
  then show ?thesis
    using h1 h2 h4 by blast
qed

subsection \<open>C7: tolerated index collisions\<close>

text \<open>
  C7. Index validation passes exactly when every row of the scratch cache has no
  collision inside the scratch cache and, where its index tuple collides with rows of
  the committed store, every colliding UUID is in the deleted-rows set or is itself
  present in the scratch cache. Any other collision makes \<open>checkIndexes\<close> return an error:
  the error it returns comes from a row of the scratch cache, and when it is the
  index-exists error of the committed store, one of its colliding UUIDs is neither
  deleted nor in the scratch cache. The loop over the colliding UUIDs returns the
  index-exists error at the first UUID that is neither.
\<close>

theorem checkIndexes_collisions:
  "(checkIndexes E t = None) =
     (\<forall>table\<in>set (Cache_Tables E (Cache t)).
        \<forall>row\<in>set (map snd (Cache_RowsShallow E (Cache t) table)). rowPasses E t table row) \<and>
   (checkIndexes E t = Some err \<longrightarrow>
     (\<exists>table\<in>set (Cache_Tables E (Cache t)).
        \<exists>row\<in>set (map snd (Cache_RowsShallow E (Cache t) table)).
          Cache_IndexExists E (Cache t) table row = Some err \<or>
          Database_CheckIndexes E (DbName t) table row = Some err \<and>
          (case err of
             ErrIndexExists tb ix existing \<Rightarrow>
               \<exists>u\<in>set existing. u \<notin> DeletedRows t \<and> \<not> Cache_HasRow E (Cache t) table u
           | _ \<Rightarrow> True))) \<and>
   checkExisting E t table err existing =
     (if \<forall>u\<in>set existing. u \<in> DeletedRows t \<or> Cache_HasRow E (Cache t) table u
      then None else Some err)"
proof (intro conjI impI)
  show "(checkIndexes E t = None) =
     (\<forall>table\<in>set (Cache_Tables E (Cache t)).
        \<forall>row\<in>set (map snd (Cache_RowsShallow E (Cache t) table)). rowPasses E t table row)"
    by (simp add: checkIndexes_def checkTables_None list_all_iff)
next
  assume "checkIndexes E t = Some err"
  then obtain table where table: "table \<in> set (Cache_Tables E (Cache t))"
    and "checkRows E t table (map snd (Cache_RowsShallow E (Cache t) table)) = Some err"
    unfolding checkIndexes_def by (blast dest: checkTables_Some)
  from checkRows_Some [OF this(2)] obtain row where
    row: "row \<in> set (map snd (Cache_RowsShallow E (Cache t) table))"
    and err: "Cache_IndexExists E (Cache t) table row = Some err \<or>
      Database_CheckIndexes E (DbName t) table row = Some err \<and>
      (case err of ErrIndexExists tb ix existing \<Rightarrow> \<not> tolerated E t table existing | _ \<Rightarrow> True)"
    by blast
  have "(case err of ErrIndexExists tb ix existing \<Rightarrow> \<not> tolerated E t table existing | _ \<Rightarrow> True) =
        (case err of
             ErrIndexExists tb ix existing \<Rightarrow>
               \<exists>u\<in>set existing. u \<notin> DeletedRows t \<and> \<not> Cache_HasRow E (Cache t) table u
           | _ \<Rightarrow> True)"
    by (auto simp: tolerated_def list_all_iff split: error.splits)
  with table row err show "\<exists>table\<in>set (Cache_Tables E (Cache t)).
        \<exists>row\<in>set (map snd (Cache_RowsShallow E (Cache t) table)).
          Cache_IndexExists E (Cache t) table row = Some err \<or>
          Database_CheckIndexes E (DbName t) table row = Some err \<and>
          (case err of
             ErrIndexExists tb ix existing \<Rightarrow>
               \<exists>u\<in>set existing. u \<notin> DeletedRows t \<and> \<not> Cache_HasRow E (Cache t) table u
           | _ \<Rightarrow> True)"
    by blast
next
  show "checkExisting E t table err existing =
     (if \<forall>u\<in>set existing. u \<in> DeletedRows t \<or> Cache_HasRow E (Cache t) table u
      then None else Some err)"
    by (simp add: checkExisting_tolerated tolerated_def list_all_iff)
qed

theorem checkIndexes_collisions_witness:
  "checkIndexes (memEnv store1) (txn3 {''u1''}) = None \<and>
   rowPasses (memEnv store1) (txn3 {''u1''}) ''Bridge'' bridge2 \<and>
   checkIndexes (memEnv store1) (txn3 {}) = Some (ErrIndexExists ''Bridge'' ''name'' [''u1'']) \<and>
   checkExisting (memEnv store1) (txn3 {}) ''Bridge'' (ErrIndexExists ''Bridge'' ''name'' [''u1''])
     [''u1''] = Some (ErrIndexExists ''Bridge'' ''name'' [''u1''])"
proof -
  let ?E = "memEnv store1"
  let ?err = "ErrIndexExists ''Bridge'' ''name'' [''u1'']"
  have h1: "checkIndexes ?E (txn3 {''u1''}) = None"
    by code_simp
  have h2: "''Bridge'' \<in> set (Cache_Tables ?E (Cache (txn3 {''u1''})))"
    by code_simp
  have h3: "bridge2 \<in> set (map snd (Cache_RowsShallow ?E (Cache (txn3 {''u1''})) ''Bridge''))"
    by code_simp
  have h4: "checkIndexes ?E (txn3 {}) = Some ?err"
    by code_simp
  have h5: "\<not> (\<forall>u\<in>set [''u1''].
      u \<in> DeletedRows (txn3 {}) \<or> Cache_HasRow ?E (Cache (txn3 {})) ''Bridge'' u)"
    by code_simp
  have "rowPasses ?E (txn3 {''u1''}) ''Bridge'' bridge2"
    using checkIndexes_collisions [of ?E "txn3 {''u1''}"] h1 h2 h3 by blast
  moreover have "checkExisting ?E (txn3 {}) ''Bridge'' ?err [''u1''] = Some ?err"
    using checkIndexes_collisions [of ?E "txn3 {}" ?err "''Bridge''" "[''u1'']"] h5 by simp
  ultimately show ?thesis
    using h1 h4 by simp
qed

subsection \<open>C8: commit, abort, assert and comment\<close>

text \<open>
  C8. The claim: every commit, abort, assert or comment operation that the executor
  processes gets a \<open>not-supported\<close> error as its result. \<open>Commit\<close>, \<open>Abort\<close>, \<open>Comment\<close> and
  \<open>Assert\<close> return nothing else, and a commit with its \<open>durable\<close> field gets that result;
  but for a commit whose \<open>durable\<close> field is absent Transact panics and returns no result
  at all.
\<close>

theorem commit_without_durable:
  "Transact (memEnv store1) txn0 [opCommit None] = Panics \<and>
   Transact (memEnv store1) txn0 [opCommit (Some True)] =
     Returns ([Some resNotSupported], [], txn0)"
  by code_simp

subsection \<open>C9: the nil pointer of the dispatch\<close>

text \<open>
  C9. At an operation that Transact dispatches (no earlier error, the database exists),
  the dispatch panics exactly when the operation is a commit without \<open>durable\<close>, a comment
  without \<open>comment\<close> or an assert without \<open>lock\<close>: it dereferences the nil pointer, and
  Transact panics with it, wherever the operation stands in the batch. With the field
  present, the commit, abort, comment or assert operation gets the \<open>not-supported\<close>
  result.
\<close>

theorem nil_dereference:
  assumes "transactLoop E pre (initVars E t) = Returns s"
    and "Error (r s) = []"
    and "Database_Exists E (DbName (txn s))"
  shows "(transactStep E op s = Panics) = derefsNil op \<and>
         (derefsNil op \<longrightarrow> Transact E t (pre @ op # post) = Panics) \<and>
         (\<not> derefsNil op \<longrightarrow>
            Op op \<in> {OperationCommit, OperationAbort, OperationComment, OperationAssert} \<longrightarrow>
            transactStep E op s =
              Returns (s\<lparr>results := results s @ [Some (ResultFromError E NotSupported)],
                         r := ResultFromError E NotSupported\<rparr>))"
proof (intro conjI impI)
  show "(transactStep E op s = Panics) = derefsNil op"
    using assms by (simp add: transactStep_Panics)
next
  assume "derefsNil op"
  then have "transactStep E op s = Panics"
    using assms by (simp add: transactStep_Panics)
  then have "transactLoop E (pre @ op # post) (initVars E t) = Panics"
    using assms(1) by (simp add: transactLoop_append)
  then show "Transact E t (pre @ op # post) = Panics"
    by (simp add: Transact_def)
next
  assume safe: "\<not> derefsNil op"
    and "Op op \<in> {OperationCommit, OperationAbort, OperationComment, OperationAssert}"
  then have "dispatch E (txn s) (uuids s) op =
      Returns ((ResultFromError E NotSupported, None), txn s, uuids s)"
    by (auto simp: dispatch_def derefsNil_def Operation_names Commit_def Abort_def
        Comment_op_def Assert_def split: option.splits)
  then show "transactStep E op s =
      Returns (s\<lparr>results := results s @ [Some (ResultFromError E NotSupported)],
                 r := ResultFromError E NotSupported\<rparr>)"
    using assms by (simp add: transactStep_def mergeAndApply_def)
qed


theorem nil_dereference_witness:
  "transactLoop (memEnv store1) [opInsertFoo] (initVars (memEnv store1) txn0) =
     Returns varsInserted \<and>
   derefsNil (opCommit None) \<and>
   Transact (memEnv store1) txn0 ([opInsertFoo] @ opCommit None # [opAbort]) = Panics \<and>
   \<not> derefsNil (opCommit (Some False)) \<and>
   transactStep (memEnv store1) (opCommit (Some False)) varsInserted =
     Returns (varsInserted\<lparr>results := results varsInserted @ [Some resNotSupported],
                           r := resNotSupported\<rparr>)"
proof -
  let ?E = "memEnv store1"
  have h1: "transactLoop ?E [opInsertFoo] (initVars ?E txn0) = Returns varsInserted"
    by code_simp
  have h2: "Error (r varsInserted) = []"
    by code_simp
  have h3: "Database_Exists ?E (DbName (txn varsInserted))"
    by code_simp
  have d1: "derefsNil (opCommit None)"
    by code_simp
  have d2: "\<not> derefsNil (opCommit (Some False))"
    by code_simp
  have o2: "Op (opCommit (Some False)) \<in>
      {OperationCommit, OperationAbort, OperationComment, OperationAssert}"
    by code_simp
  have ns: "ResultFromError ?E NotSupported = resNotSupported"
    by code_simp
  have "Transact ?E txn0 ([opInsertFoo] @ opCommit None # [opAbort]) = Panics"
    using nil_dereference [OF h1 h2 h3, of "opCommit None" "[opAbort]"] d1 by blast
  moreover have "transactStep ?E (opCommit (Some False)) varsInserted =
      Returns (varsInserted\<lparr>results := results varsInserted @ [Some (ResultFromError ?E NotSupported)],
                            r := ResultFromError ?E NotSupported\<rparr>)"
    using nil_dereference [OF h1 h2 h3, of "opCommit (Some False)" "[]"] d2 o2 by blast
  ultimately show ?thesis
    using h1 d1 d2 unfolding ns by blast
qed

subsection \<open>C10: a database that does not exist\<close>

text \<open>
  C10. For a non-empty batch against a database name that does not exist, the first
  result is the error \<open>database does not exist\<close>, every later slot is a null placeholder,
  the returned update is the empty one, and the transaction is left as it was.
\<close>

theorem database_does_not_exist:
  assumes "\<not> Database_Exists E (DbName t)" and "ops \<noteq> []"
  shows "Transact E t ops =
           Returns (Some (zeroResult\<lparr>Error := ''database does not exist''\<rparr>) #
                      replicate (length ops - 1) None,
                    ModelUpdates_empty E, t)"
proof -
  obtain op rest where ops: "ops = op # rest"
    using assms(2) by (cases ops) auto
  let ?r = "zeroResult\<lparr>Error := ''database does not exist''\<rparr> :: 'a OperationResult"
  let ?s = "(initVars E t)\<lparr>results := [Some ?r], r := ?r\<rparr>"
  have "transactStep E op (initVars E t) = Returns ?s"
    using assms(1) by (simp add: transactStep_def initVars_def zeroResult_def Let_def)
  moreover have "Error (r ?s) \<noteq> []"
    by simp
  ultimately have "transactLoop E ops (initVars E t) =
      Returns (?s\<lparr>results := results ?s @ replicate (length rest) None\<rparr>)"
    unfolding ops by (simp add: transactLoop_aborted)
  then show ?thesis
    by (simp add: Transact_def ops initVars_def)
qed


theorem database_does_not_exist_witness:
  "\<not> Database_Exists (memEnv store1) (DbName (txn0\<lparr>DbName := ''OVN_Northbound''\<rparr>)) \<and>
   Transact (memEnv store1) (txn0\<lparr>DbName := ''OVN_Northbound''\<rparr>)
     [opInsertFoo, opCommit None, opSelectU1] =
     Returns ([Some resNoDatabase, None, None], ModelUpdates_empty (memEnv store1),
              txn0\<lparr>DbName := ''OVN_Northbound''\<rparr>)"
proof -
  have h1: "\<not> Database_Exists (memEnv store1) (DbName (txn0\<lparr>DbName := ''OVN_Northbound''\<rparr>))"
    by (simp add: memEnv_def)
  have h2: "[opInsertFoo, opCommit None, opSelectU1] \<noteq> []"
    by simp
  show ?thesis
    using database_does_not_exist [OF h1 h2] h1 by (simp add: resNoDatabase_def numeral_2_eq_2)
qed

end
